theory Spec2Isabelle
  imports Complex_Main
begin

section \<open>The room document\<close>

text \<open>
  The editor keeps one room document, two history stacks, a paint-session buffer, the
  active tile brush and the brush library in the state of \<^verbatim>\<open>RoomProvider\<close>
  (\<^verbatim>\<open>src/contexts/RoomContext.tsx\<close>). The types are those of
  \<^verbatim>\<open>src/types/room.ts\<close>. Isabelle record fields are global constants, so the
  fields that several interfaces share carry a prefix: \<open>tx\<close>, \<open>ty\<close>, \<open>tindex\<close> are
  \<^verbatim>\<open>Tile.x\<close>, \<^verbatim>\<open>Tile.y\<close>, \<^verbatim>\<open>Tile.index\<close>; \<open>ix\<close>, \<open>iy\<close> are
  \<^verbatim>\<open>Instance.x\<close>, \<^verbatim>\<open>Instance.y\<close>; \<open>lname\<close>, \<open>ltype\<close> are
  \<^verbatim>\<open>Layer.name\<close>, \<^verbatim>\<open>Layer.type\<close>; \<open>rindex\<close>, \<open>rtype\<close> are
  \<^verbatim>\<open>Room.index\<close>, \<^verbatim>\<open>Room.type\<close>; the brush fields start with \<open>b\<close>.

  JavaScript numbers are modelled as \<open>int\<close>: coordinates, sizes and indices are whole
  numbers wherever the editor produces them. The one quotient that the modelled code
  stores is the coordinate of a brush tile, which is a \<open>rat\<close>. An optional field
  (\<^verbatim>\<open>type?: string\<close>, possibly \<^verbatim>\<open>undefined\<close>) is an \<open>option\<close>.
\<close>

datatype layer_type = TileT | ObjectT

text \<open>\<^verbatim>\<open>instance_layer_name: string | number\<close>\<close>

datatype layer_ref = LName string | LNum int

record Instance =
  instance_layer_name :: layer_ref
  obj_name :: string
  ix :: int
  iy :: int

record Tile =
  tx :: int
  ty :: int
  tindex :: int
  selected :: "bool option"

text \<open>
  \<^verbatim>\<open>TileBrush.tiles\<close> is declared as \<^verbatim>\<open>Tile[]\<close>; the entries that the canvas
  stores are \<^verbatim>\<open>{ x, y, index }\<close> with \<^verbatim>\<open>x\<close> and \<^verbatim>\<open>y\<close> in grid units, each
  the quotient of a pixel distance by the tile size.
\<close>

record BrushTile =
  brx :: rat
  bry :: rat
  brindex :: int

record TileBrush =
  btiles :: "BrushTile list"
  bwidth :: int
  bheight :: int
  btexture :: string
  offsetX :: int
  offsetY :: int

record Layer =
  lname :: string
  depth :: int
  ltype :: layer_type
  visible :: bool
  tiles :: "Tile list"
  texture :: "string option"

record Room =
  instances :: "Instance list"
  layers :: "Layer list"
  width :: int
  height :: int
  name :: string
  rindex :: string
  rtype :: "string option"
  biome :: "string option"
  chance :: "int option"

text \<open>The literal \<^verbatim>\<open>{ x, y, index }\<close>: a tile without the \<^verbatim>\<open>selected\<close> marker.\<close>

definition mkTile :: "int \<Rightarrow> int \<Rightarrow> int \<Rightarrow> Tile" where
  "mkTile x y i = \<lparr>tx = x, ty = y, tindex = i, selected = None\<rparr>"

definition defaultLayers :: "Layer list" where
  "defaultLayers =
     [\<lparr>lname = ''TilesForest'', depth = 0, ltype = TileT, visible = True, tiles = [],
       texture = Some ''tileset_forest''\<rparr>,
      \<lparr>lname = ''Objects'', depth = 100, ltype = ObjectT, visible = True, tiles = [],
       texture = None\<rparr>]"

definition createNewRoom :: "string \<Rightarrow> Room" where
  "createNewRoom n =
     \<lparr>instances = [], layers = defaultLayers, width = 800, height = 600, name = n,
      rindex = ''@ref room('' @ n @ '')'', rtype = None, biome = None, chance = Some 100\<rparr>"

definition defaultRoom :: Room where
  "defaultRoom = createNewRoom ''New Room''"

subsection \<open>History entries\<close>

text \<open>
  \<^verbatim>\<open>RoomAction.type\<close> is a string in the source; the constructors below are the
  literals that the context and the canvas write and that \<^verbatim>\<open>undo\<close> and \<^verbatim>\<open>redo\<close>
  switch on. The payload is the source's bag of optional fields (prefix \<open>p_\<close>), limited
  to the fields that the modelled functions write or read. \<^verbatim>\<open>description\<close> is a
  display label that no function reads and is left out.
\<close>

datatype action_type =
    RENAME_ROOM | ADD_INSTANCE | REMOVE_INSTANCE | ADD_LAYER | REMOVE_LAYER
  | TOGGLE_LAYER_VISIBILITY | UPDATE_LAYER_TYPE | UPDATE_LAYER_TEXTURE
  | ADD_TILE | REMOVE_TILE | UPDATE_ROOM_SIZE | UPDATE_ROOM_TYPE | UPDATE_ROOM_BIOME
  | PLACE_PREFAB | APPLY_TILE_BRUSH | BATCH_ADD_TILES | BATCH_REMOVE_TILES

record BatchedTile =
  b_layerName :: string
  b_x :: int
  b_y :: int
  b_index :: "int option"

record ModifiedTile =
  m_x :: int
  m_y :: int
  m_prevIndex :: "int option"

record Payload =
  p_previousRoom :: "Room option"
  p_instance :: "Instance option"
  p_index :: "int option"
  p_layer :: "Layer option"
  p_layerName :: "string option"
  p_x :: "int option"
  p_y :: "int option"
  p_tileIndex :: "int option"
  p_type :: "string option"
  p_visible :: "bool option"
  p_texture :: "string option"
  p_width :: "int option"
  p_height :: "int option"
  p_previousWidth :: "int option"
  p_previousHeight :: "int option"
  p_previousType :: "string option"
  p_previousBiome :: "string option"
  p_biome :: "string option"
  p_removedTile :: "Tile option"
  p_removedInstances :: "Instance list option"
  p_tilesBeforePlacement :: "BatchedTile list option"
  p_tilesBefore :: "Tile list option"
  p_tilesModified :: "ModifiedTile list option"
  p_batchedTiles :: "BatchedTile list option"
  p_name :: "string option"

definition emptyPayload :: Payload where
  "emptyPayload =
     \<lparr>p_previousRoom = None, p_instance = None, p_index = None, p_layer = None,
      p_layerName = None, p_x = None, p_y = None, p_tileIndex = None, p_type = None,
      p_visible = None, p_texture = None, p_width = None, p_height = None,
      p_previousWidth = None, p_previousHeight = None, p_previousType = None,
      p_previousBiome = None, p_biome = None, p_removedTile = None,
      p_removedInstances = None, p_tilesBeforePlacement = None, p_tilesBefore = None,
      p_tilesModified = None, p_batchedTiles = None, p_name = None\<rparr>"

record RoomAction =
  atype :: action_type
  payload :: Payload

subsection \<open>JSON values and the provider's state\<close>

text \<open>
  A value returned by \<^verbatim>\<open>JSON.parse\<close>. An object is its list of own properties, one
  binding per key. The brush library holds plain objects at run time, and the import
  stores the parsed objects as they are, so the library is a list of such values.
\<close>

datatype json =
    JNull | JBool bool | JNum int | JStr string | JArr "json list"
  | JObj "(string \<times> json) list"

record State =
  room :: Room
  undoStack :: "RoomAction list"
  redoStack :: "RoomAction list"
  isUndoRedoAction :: bool
  isPainting :: bool
  paintedTiles :: "BatchedTile list"
  initialRoomState :: "Room option"
  tileBrush :: "TileBrush option"
  savedBrushes :: "json list"

definition exampleBrush :: json where
  "exampleBrush =
     JObj [(''id'', JStr ''example_brush_1''), (''name'', JStr ''Example 1x1 Brush''),
           (''tiles'', JArr [JObj [(''x'', JNum 0), (''y'', JNum 0), (''index'', JNum 0)]]),
           (''width'', JNum 1), (''height'', JNum 1), (''texture'', JStr ''default''),
           (''offsetX'', JNum 0), (''offsetY'', JNum 0)]"

text \<open>The state after the provider has mounted and its effects have run.\<close>

definition initialState :: State where
  "initialState =
     \<lparr>room = defaultRoom, undoStack = [], redoStack = [], isUndoRedoAction = False,
      isPainting = False, paintedTiles = [], initialRoomState = None, tileBrush = None,
      savedBrushes = [exampleBrush]\<rparr>"

section \<open>Helpers for JavaScript arrays\<close>

text \<open>\<^verbatim>\<open>Array.prototype.findIndex\<close>; \<open>None\<close> is the result \<^verbatim>\<open>-1\<close>.\<close>

fun findIndex :: "('a \<Rightarrow> bool) \<Rightarrow> 'a list \<Rightarrow> nat option" where
  "findIndex P [] = None"
| "findIndex P (x # xs) = (if P x then Some 0 else map_option Suc (findIndex P xs))"

text \<open>
  \<^verbatim>\<open>xs.filter((_, i) => i !== k)\<close> and \<^verbatim>\<open>xs.splice(k, 1)\<close> for an index \<open>k\<close> in range.
\<close>

definition removeAt :: "nat \<Rightarrow> 'a list \<Rightarrow> 'a list" where
  "removeAt k xs = take k xs @ drop (Suc k) xs"

text \<open>The test \<^verbatim>\<open>t.x === x && t.y === y\<close>.\<close>

definition atCell :: "int \<Rightarrow> int \<Rightarrow> Tile \<Rightarrow> bool" where
  "atCell x y t \<longleftrightarrow> tx t = x \<and> ty t = y"

text \<open>Replacing the tile array of the layer at position \<open>li\<close> of the layer array.\<close>

definition setTiles :: "nat \<Rightarrow> Tile list \<Rightarrow> Room \<Rightarrow> Room" where
  "setTiles li ts r = r\<lparr>layers := (layers r)[li := (layers r ! li)\<lparr>tiles := ts\<rparr>]\<rparr>"

text \<open>A non-empty string is truthy.\<close>

definition truthyName :: "string option \<Rightarrow> string option" where
  "truthyName n = (case n of Some (c # cs) \<Rightarrow> Some (c # cs) | _ \<Rightarrow> None)"

section \<open>Recording history\<close>

text \<open>
  Each function of the context is modelled as one transition of the provider's state:
  it reads the committed state and returns the state after React has applied the
  updates it queued. Every call is an event of its own; two calls made by one event
  handler, where the second still sees the state of the last render, are covered only
  by \<open>mouseDownPlace\<close> below.
  \<^verbatim>\<open>JSON.parse(JSON.stringify(room))\<close> yields a structurally equal
  copy, which is the same value here. The tab list and \<^verbatim>\<open>localStorage\<close> are not part
  of the model.

  Rooms and history entries are values here, without the identity of the JavaScript
  objects. Where the code makes the live room the very object that an entry holds
  (\<^verbatim>\<open>redo\<close> of \<^verbatim>\<open>UPDATE_ROOM_TYPE\<close>, \<^verbatim>\<open>UPDATE_ROOM_BIOME\<close> and
  \<^verbatim>\<open>APPLY_TILE_BRUSH\<close> sets \<^verbatim>\<open>payload.previousRoom\<close> itself) and a later call
  changes a layer or a tile array of the live room in place (\<^verbatim>\<open>removeTile\<close>, the
  \<^verbatim>\<open>push\<close> of \<^verbatim>\<open>applyTileBrush\<close>, the tile cases of \<^verbatim>\<open>undo\<close> and
  \<^verbatim>\<open>redo\<close>), the content of that older entry changes with it; the model keeps the
  entry as it was. An entry that a command or \<^verbatim>\<open>endPainting\<close> pushes holds a copy
  taken before the change (for \<^verbatim>\<open>updateRoomSize\<close> the former room object, which
  the new room no longer shares anything with), and \<^verbatim>\<open>undo\<close> sets a copy of what
  the entry holds. The theorems on the claims therefore speak of the live room, of the
  number of entries and of the entry pushed last, and of no entry pushed before; where
  an auxiliary lemma compares whole stacks, it compares the values of the model.
\<close>

definition addToHistory :: "RoomAction \<Rightarrow> State \<Rightarrow> State" where
  "addToHistory action s =
     (if isUndoRedoAction s then s
      else s\<lparr>undoStack := undoStack s @ [action], redoStack := []\<rparr>)"

definition updateRoomWithHistory :: "Room \<Rightarrow> RoomAction \<Rightarrow> State \<Rightarrow> State" where
  "updateRoomWithHistory newRoom action s =
     (let s1 =
        (if \<not> isUndoRedoAction s then
           (addToHistory
              (action\<lparr>payload := (payload action)\<lparr>p_previousRoom := Some (room s)\<rparr>\<rparr>) s)
             \<lparr>redoStack := []\<rparr>
         else s)
      in s1\<lparr>room := newRoom\<rparr>)"

section \<open>Mutation commands\<close>

definition setRoomName :: "string \<Rightarrow> State \<Rightarrow> State" where
  "setRoomName n s =
     updateRoomWithHistory
       ((room s)\<lparr>name := n, rindex := ''@ref room('' @ n @ '')''\<rparr>)
       \<lparr>atype = RENAME_ROOM, payload = emptyPayload\<lparr>p_name := Some n\<rparr>\<rparr> s"

definition canPlaceObjectOnLayer :: "Room \<Rightarrow> layer_ref \<Rightarrow> bool" where
  "canPlaceObjectOnLayer r layerName =
     (case find (\<lambda>l. LName (lname l) = layerName) (layers r) of
        None \<Rightarrow> False
      | Some layer \<Rightarrow> ltype layer = ObjectT)"

definition addInstance :: "Instance \<Rightarrow> State \<Rightarrow> State" where
  "addInstance inst s =
     (if \<not> canPlaceObjectOnLayer (room s) (instance_layer_name inst) then s
      else updateRoomWithHistory
             ((room s)\<lparr>instances := instances (room s) @ [inst]\<rparr>)
             \<lparr>atype = ADD_INSTANCE,
              payload = emptyPayload\<lparr>p_instance := Some inst,
                                     p_previousRoom := Some (room s)\<rparr>\<rparr> s)"

text \<open>
  \<^verbatim>\<open>removeInstance\<close> reads \<^verbatim>\<open>removedInstance.obj_name\<close> while it builds the
  description: for an index outside the array this throws a \<^verbatim>\<open>TypeError\<close> before
  any state is set.
\<close>

datatype error = TypeError

definition removeInstance :: "int \<Rightarrow> State \<Rightarrow> error + State" where
  "removeInstance i s =
     (if 0 \<le> i \<and> i < int (length (instances (room s))) then
        Inr (updateRoomWithHistory
               ((room s)\<lparr>instances := removeAt (nat i) (instances (room s))\<rparr>)
               \<lparr>atype = REMOVE_INSTANCE,
                payload = emptyPayload\<lparr>p_instance := Some (instances (room s) ! nat i),
                                       p_index := Some i\<rparr>\<rparr> s)
      else Inl TypeError)"

text \<open>
  The parameter of \<^verbatim>\<open>addLayer\<close> has the declared type \<^verbatim>\<open>Layer\<close>, whose
  \<^verbatim>\<open>type\<close> and \<^verbatim>\<open>visible\<close> are present, so the two defaults of the source
  (\<^verbatim>\<open>layer.type || 'tile'\<close>, \<^verbatim>\<open>layer.visible !== undefined ? layer.visible : true\<close>)
  return the layer's own values.
\<close>

definition addLayer :: "Layer \<Rightarrow> State \<Rightarrow> State" where
  "addLayer layer s =
     (let completeLayer = layer\<lparr>ltype := ltype layer, visible := visible layer\<rparr>
      in updateRoomWithHistory
           ((room s)\<lparr>layers := layers (room s) @ [completeLayer]\<rparr>)
           \<lparr>atype = ADD_LAYER, payload = emptyPayload\<lparr>p_layer := Some completeLayer\<rparr>\<rparr> s)"

definition removeLayer :: "string \<Rightarrow> State \<Rightarrow> State" where
  "removeLayer n s =
     (case find (\<lambda>layer. lname layer = n) (layers (room s)) of
        None \<Rightarrow> s
      | Some layerToRemove \<Rightarrow>
          updateRoomWithHistory
            ((room s)\<lparr>layers := filter (\<lambda>layer. lname layer \<noteq> n) (layers (room s)),
                      instances := filter (\<lambda>i. instance_layer_name i \<noteq> LName n)
                                     (instances (room s))\<rparr>)
            \<lparr>atype = REMOVE_LAYER,
             payload = emptyPayload\<lparr>p_layer := Some layerToRemove,
               p_removedInstances :=
                 Some (filter (\<lambda>i. instance_layer_name i = LName n) (instances (room s)))\<rparr>\<rparr>
            s)"

definition toggleLayerVisibility :: "string \<Rightarrow> State \<Rightarrow> State" where
  "toggleLayerVisibility n s =
     (let newLayers = map (\<lambda>layer. if lname layer = n
                                    then layer\<lparr>visible := \<not> visible layer\<rparr> else layer)
                        (layers (room s));
          newVisibility = (case find (\<lambda>l. lname l = n) (layers (room s)) of
                             None \<Rightarrow> True | Some l \<Rightarrow> \<not> visible l)
      in updateRoomWithHistory ((room s)\<lparr>layers := newLayers\<rparr>)
           \<lparr>atype = TOGGLE_LAYER_VISIBILITY,
            payload = emptyPayload\<lparr>p_layerName := Some n,
                                   p_visible := Some newVisibility\<rparr>\<rparr> s)"

definition layerTypeName :: "layer_type \<Rightarrow> string" where
  "layerTypeName t = (case t of TileT \<Rightarrow> ''tile'' | ObjectT \<Rightarrow> ''object'')"

definition updateLayerType :: "string \<Rightarrow> layer_type \<Rightarrow> State \<Rightarrow> State" where
  "updateLayerType n t s =
     updateRoomWithHistory
       ((room s)\<lparr>layers := map (\<lambda>layer. if lname layer = n then layer\<lparr>ltype := t\<rparr>
                                         else layer) (layers (room s))\<rparr>)
       \<lparr>atype = UPDATE_LAYER_TYPE,
        payload = emptyPayload\<lparr>p_layerName := Some n,
                               p_type := Some (layerTypeName t)\<rparr>\<rparr> s"

definition updateLayerTexture :: "string \<Rightarrow> string \<Rightarrow> State \<Rightarrow> State" where
  "updateLayerTexture n tex s =
     updateRoomWithHistory
       ((room s)\<lparr>layers := map (\<lambda>layer. if lname layer = n
                                         then layer\<lparr>texture := Some tex\<rparr> else layer)
                             (layers (room s))\<rparr>)
       \<lparr>atype = UPDATE_LAYER_TEXTURE,
        payload = emptyPayload\<lparr>p_layerName := Some n, p_texture := Some tex\<rparr>\<rparr> s"

subsection \<open>Tiles and the paint session\<close>

definition addTile :: "string \<Rightarrow> int \<Rightarrow> int \<Rightarrow> int \<Rightarrow> State \<Rightarrow> State" where
  "addTile layerName x y index s =
     (case findIndex (\<lambda>l. lname l = layerName) (layers (room s)) of
        None \<Rightarrow> s
      | Some li \<Rightarrow>
          let layer = layers (room s) ! li in
          if ltype layer \<noteq> TileT then s
          else
            let newTiles =
                  (case findIndex (atCell x y) (tiles layer) of
                     Some existingTileIndex \<Rightarrow>
                       (tiles layer)[existingTileIndex := mkTile x y index]
                   | None \<Rightarrow> tiles layer @ [mkTile x y index]);
                newRoom = setTiles li newTiles (room s)
            in if isPainting s then
                 s\<lparr>paintedTiles := paintedTiles s @
                      [\<lparr>b_layerName = layerName, b_x = x, b_y = y, b_index = Some index\<rparr>],
                   room := newRoom\<rparr>
               else
                 updateRoomWithHistory newRoom
                   \<lparr>atype = ADD_TILE,
                    payload = emptyPayload\<lparr>p_layerName := Some layerName, p_x := Some x,
                                           p_y := Some y, p_index := Some index\<rparr>\<rparr> s)"


definition endPainting :: "State \<Rightarrow> State" where
  "endPainting s =
     (if \<not> isPainting s \<or> paintedTiles s = [] then
        s\<lparr>isPainting := False, paintedTiles := [], initialRoomState := None\<rparr>
      else
        (addToHistory
           \<lparr>atype = BATCH_ADD_TILES,
            payload = emptyPayload\<lparr>p_batchedTiles := Some (paintedTiles s),
                                   p_previousRoom := initialRoomState s\<rparr>\<rparr> s)
          \<lparr>isPainting := False, paintedTiles := [], initialRoomState := None\<rparr>)"

text \<open>
  Outside a paint session \<^verbatim>\<open>removeTile\<close> splices the tile out of the tile array of
  the live room inside the state updater (\<^verbatim>\<open>{ ...prevRoom }\<close> copies the top level
  only) and then calls \<^verbatim>\<open>updateRoomWithHistory\<close>, whose copy of \<^verbatim>\<open>room\<close> is
  therefore taken after the removal and replaces the \<^verbatim>\<open>previousRoom\<close> that the
  updater had put into the payload. The in-place removal is the state update that
  precedes the call below.
\<close>

definition removeTile :: "string \<Rightarrow> int \<Rightarrow> int \<Rightarrow> State \<Rightarrow> State" where
  "removeTile layerName x y s =
     (if isPainting s then
        s\<lparr>paintedTiles := paintedTiles s @
             [\<lparr>b_layerName = layerName, b_x = x, b_y = y, b_index = None\<rparr>],
          room :=
            (case findIndex (\<lambda>l. lname l = layerName) (layers (room s)) of
               None \<Rightarrow> room s
             | Some li \<Rightarrow>
                 let layer = layers (room s) ! li in
                 if ltype layer \<noteq> TileT then room s
                 else setTiles li (filter (\<lambda>t. \<not> atCell x y t) (tiles layer)) (room s))\<rparr>
      else
        (case findIndex (\<lambda>l. lname l = layerName) (layers (room s)) of
           None \<Rightarrow> s
         | Some li \<Rightarrow>
             let layer = layers (room s) ! li in
             if ltype layer \<noteq> TileT then s
             else
               (case findIndex (atCell x y) (tiles layer) of
                  None \<Rightarrow> s
                | Some tileIndex \<Rightarrow>
                    let previousRoom = room s;
                        newRoom = setTiles li (removeAt tileIndex (tiles layer)) (room s)
                    in updateRoomWithHistory newRoom
                         \<lparr>atype = REMOVE_TILE,
                          payload = emptyPayload\<lparr>p_layerName := Some layerName,
                            p_x := Some x, p_y := Some y,
                            p_previousRoom := Some previousRoom\<rparr>\<rparr>
                         (s\<lparr>room := newRoom\<rparr>))))"

subsection \<open>Room properties\<close>

definition inBounds :: "int \<Rightarrow> int \<Rightarrow> int \<Rightarrow> int \<Rightarrow> bool" where
  "inBounds w h x y \<longleftrightarrow> x < w \<and> y < h \<and> x \<ge> 0 \<and> y \<ge> 0"

definition updateRoomSize :: "int \<Rightarrow> int \<Rightarrow> State \<Rightarrow> State" where
  "updateRoomSize w h s =
     (let newRoom =
            (room s)\<lparr>width := w, height := h,
              layers := map (\<lambda>layer.
                               if ltype layer = TileT then
                                 layer\<lparr>tiles := filter (\<lambda>tile. inBounds w h (tx tile) (ty tile))
                                                   (tiles layer)\<rparr>
                               else layer) (layers (room s)),
              instances := filter (\<lambda>i. inBounds w h (ix i) (iy i)) (instances (room s))\<rparr>;
          action =
            \<lparr>atype = UPDATE_ROOM_SIZE,
             payload = emptyPayload\<lparr>p_width := Some w, p_height := Some h,
               p_previousWidth := Some (width (room s)),
               p_previousHeight := Some (height (room s)),
               p_previousRoom := Some (room s)\<rparr>\<rparr>
      in addToHistory action (s\<lparr>room := newRoom\<rparr>))"

definition updateRoomType :: "string option \<Rightarrow> State \<Rightarrow> State" where
  "updateRoomType t s =
     updateRoomWithHistory ((room s)\<lparr>rtype := t\<rparr>)
       \<lparr>atype = UPDATE_ROOM_TYPE,
        payload = emptyPayload\<lparr>p_previousType := rtype (room s)\<rparr>\<rparr> s"

definition updateRoomBiome :: "string option \<Rightarrow> State \<Rightarrow> State" where
  "updateRoomBiome b s =
     updateRoomWithHistory ((room s)\<lparr>biome := b\<rparr>)
       \<lparr>atype = UPDATE_ROOM_BIOME,
        payload = emptyPayload\<lparr>p_previousBiome := biome (room s)\<rparr>\<rparr> s"

definition updateRoomChance :: "int option \<Rightarrow> State \<Rightarrow> State" where
  "updateRoomChance c s = s\<lparr>room := (room s)\<lparr>chance := c\<rparr>\<rparr>"

subsection \<open>Applying the tile brush\<close>

text \<open>
  One round of the \<^verbatim>\<open>forEach\<close> over the brush tiles; the pair is the tile array of
  the target layer and \<^verbatim>\<open>batchedTiles\<close>. \<^verbatim>\<open>tileSize\<close> is the constant 16.
  \<^verbatim>\<open>Math.round\<close> gives the nearest whole number, the upper one in a tie.
\<close>

definition jsRound :: "rat \<Rightarrow> int" where
  "jsRound q = \<lfloor>q + 1 / 2\<rfloor>"

definition brushStep ::
  "Room \<Rightarrow> string \<Rightarrow> int \<Rightarrow> int \<Rightarrow> BrushTile \<Rightarrow> Tile list \<times> BatchedTile list
     \<Rightarrow> Tile list \<times> BatchedTile list" where
  "brushStep r layerName x y brushTile acc =
     (let tileX = x + jsRound (brx brushTile * 16);
          tileY = y + jsRound (bry brushTile * 16)
      in if tileX < 0 \<or> tileY < 0 \<or> tileX \<ge> width r \<or> tileY \<ge> height r then acc
         else
           (case findIndex (atCell tileX tileY) (fst acc) of
              Some existingTileIndex \<Rightarrow>
                (removeAt existingTileIndex (fst acc) @
                   [mkTile tileX tileY (brindex brushTile)],
                 snd acc @
                   [\<lparr>b_layerName = layerName, b_x = tileX, b_y = tileY,
                     b_index = Some (tindex (fst acc ! existingTileIndex))\<rparr>])
            | None \<Rightarrow>
                (fst acc @ [mkTile tileX tileY (brindex brushTile)],
                 snd acc @
                   [\<lparr>b_layerName = layerName, b_x = tileX, b_y = tileY,
                     b_index = None\<rparr>])))"

definition applyTileBrush :: "string \<Rightarrow> int \<Rightarrow> int \<Rightarrow> State \<Rightarrow> State" where
  "applyTileBrush layerName x y s =
     (case tileBrush s of
        None \<Rightarrow> s
      | Some brush \<Rightarrow>
          (case findIndex (\<lambda>layer. lname layer = layerName) (layers (room s)) of
             None \<Rightarrow> s
           | Some layerIndex \<Rightarrow>
               if ltype (layers (room s) ! layerIndex) \<noteq> TileT then s
               else
                 let initialRoomState = room s;
                     res = fold (brushStep (room s) layerName x y) (btiles brush)
                             (tiles (layers (room s) ! layerIndex), []);
                     newRoom = setTiles layerIndex (fst res) (room s);
                     batchedTiles = snd res
                 in if isPainting s then
                      s\<lparr>paintedTiles := paintedTiles s @ batchedTiles, room := newRoom\<rparr>
                    else
                      (addToHistory
                         \<lparr>atype = BATCH_ADD_TILES,
                          payload = emptyPayload\<lparr>p_batchedTiles := Some batchedTiles,
                            p_previousRoom := Some initialRoomState\<rparr>\<rparr> s)
                        \<lparr>room := newRoom\<rparr>))"

section \<open>Undo and redo\<close>

text \<open>
  \<^verbatim>\<open>undo\<close> restores \<^verbatim>\<open>payload.previousRoom\<close> when the entry has one; otherwise it
  switches on the entry's type. \<open>undoSwitch\<close> is that switch, as a function from the
  current room to the room it sets (the current room where a case sets none).
  \<open>redoSwitch\<close> below is the switch of \<^verbatim>\<open>redo\<close> in the same way. Both give the
  room by value: where the code sets the entry's own \<^verbatim>\<open>previousRoom\<close> object, or
  changes a layer of the live room in place, the model gives the room with that content
  (see the remark on values and objects in the section on recording history).
\<close>

definition sameInstance :: "Instance \<Rightarrow> Instance \<Rightarrow> bool" where
  "sameInstance a i \<longleftrightarrow> ix i = ix a \<and> iy i = iy a \<and> obj_name i = obj_name a"

definition isStringRef :: "layer_ref \<Rightarrow> bool" where
  "isStringRef n = (case n of LName _ \<Rightarrow> True | LNum _ \<Rightarrow> False)"

text \<open>One round of the \<^verbatim>\<open>forEach\<close> over \<^verbatim>\<open>tilesBeforePlacement\<close>.\<close>

definition prefabStep :: "BatchedTile \<Rightarrow> Room \<Rightarrow> Room" where
  "prefabStep tile r =
     (case findIndex (\<lambda>l. lname l = b_layerName tile) (layers r) of
        None \<Rightarrow> r
      | Some layerIndex \<Rightarrow>
          let layer = layers r ! layerIndex in
          (case b_index tile of
             None \<Rightarrow>
               setTiles layerIndex
                 (filter (\<lambda>t. \<not> atCell (b_x tile) (b_y tile) t) (tiles layer)) r
           | Some i \<Rightarrow>
               (case findIndex (atCell (b_x tile) (b_y tile)) (tiles layer) of
                  Some tileIndex \<Rightarrow>
                    setTiles layerIndex
                      ((tiles layer)[tileIndex := (tiles layer ! tileIndex)\<lparr>tindex := i\<rparr>]) r
                | None \<Rightarrow>
                    setTiles layerIndex
                      (tiles layer @ [mkTile (b_x tile) (b_y tile) i]) r)))"

definition undoSwitch :: "RoomAction \<Rightarrow> Room \<Rightarrow> Room" where
  "undoSwitch a r =
     (let p = payload a in
      case atype a of
        ADD_INSTANCE \<Rightarrow>
          (case p_instance p of
             None \<Rightarrow> r
           | Some instanceToRemove \<Rightarrow>
               (case findIndex (sameInstance instanceToRemove) (instances r) of
                  None \<Rightarrow> r
                | Some instanceIndex \<Rightarrow>
                    r\<lparr>instances := removeAt instanceIndex (instances r)\<rparr>))
      | REMOVE_INSTANCE \<Rightarrow>
          (case p_instance p of
             None \<Rightarrow> r
           | Some instanceToRestore \<Rightarrow>
               if isStringRef (instance_layer_name instanceToRestore)
                  \<and> canPlaceObjectOnLayer r (instance_layer_name instanceToRestore)
               then r\<lparr>instances := instances r @ [instanceToRestore]\<rparr>
               else r)
      | ADD_LAYER \<Rightarrow>
          (case p_layer p of
             None \<Rightarrow> r
           | Some layerToRemove \<Rightarrow>
               r\<lparr>layers := filter (\<lambda>layer. lname layer \<noteq> lname layerToRemove) (layers r),
                 instances := filter (\<lambda>i. instance_layer_name i \<noteq> LName (lname layerToRemove))
                                (instances r)\<rparr>)
      | REMOVE_LAYER \<Rightarrow>
          (case p_layer p of
             None \<Rightarrow> r
           | Some layerToRestore \<Rightarrow>
               r\<lparr>layers := layers r @ [layerToRestore],
                 instances := instances r @
                   (case p_removedInstances p of None \<Rightarrow> [] | Some is \<Rightarrow> is)\<rparr>)
      | ADD_TILE \<Rightarrow>
          (case (truthyName (p_layerName p), p_x p, p_y p) of
             (Some layerName, Some x, Some y) \<Rightarrow>
               (case findIndex (\<lambda>layer. lname layer = layerName) (layers r) of
                  None \<Rightarrow> r
                | Some layerIndex \<Rightarrow>
                    setTiles layerIndex
                      (filter (\<lambda>tile. \<not> atCell x y tile) (tiles (layers r ! layerIndex))) r)
           | _ \<Rightarrow> r)
      | REMOVE_TILE \<Rightarrow>
          (case (truthyName (p_layerName p), p_x p, p_y p, p_removedTile p) of
             (Some layerName, Some x, Some y, Some removedTile) \<Rightarrow>
               (case findIndex (\<lambda>layer. lname layer = layerName) (layers r) of
                  None \<Rightarrow> r
                | Some layerIndex \<Rightarrow>
                    setTiles layerIndex
                      (tiles (layers r ! layerIndex) @ [mkTile x y (tindex removedTile)]) r)
           | _ \<Rightarrow> r)
      | PLACE_PREFAB \<Rightarrow>
          (case p_tilesBeforePlacement p of
             None \<Rightarrow> r
           | Some tilesBeforePlacement \<Rightarrow> fold prefabStep tilesBeforePlacement r)
      | UPDATE_ROOM_TYPE \<Rightarrow> r\<lparr>rtype := p_previousType p\<rparr>
      | UPDATE_ROOM_BIOME \<Rightarrow> r\<lparr>biome := p_previousBiome p\<rparr>
      | APPLY_TILE_BRUSH \<Rightarrow>
          (case (truthyName (p_layerName p), p_tilesBefore p) of
             (Some layerName, Some tilesBefore) \<Rightarrow>
               (case findIndex (\<lambda>layer. lname layer = layerName) (layers r) of
                  None \<Rightarrow> r
                | Some layerIndex \<Rightarrow> setTiles layerIndex tilesBefore r)
           | _ \<Rightarrow> r)
      | BATCH_ADD_TILES \<Rightarrow>
          (case p_previousRoom p of None \<Rightarrow> r | Some previousRoom \<Rightarrow> previousRoom)
      | BATCH_REMOVE_TILES \<Rightarrow>
          (case p_previousRoom p of None \<Rightarrow> r | Some previousRoom \<Rightarrow> previousRoom)
      | _ \<Rightarrow> r)"

text \<open>
  The handler sets \<^verbatim>\<open>isUndoRedoAction\<close>; the zero-delay timer that it starts clears
  the flag again and is the separate transition \<open>undoRedoTimeout\<close>.
\<close>

definition undo :: "State \<Rightarrow> State" where
  "undo s =
     (if undoStack s = [] then s
      else
        let lastUndoAction = last (undoStack s) in
        (case p_previousRoom (payload lastUndoAction) of
           Some previousRoom \<Rightarrow>
             s\<lparr>isUndoRedoAction := True, room := previousRoom,
               redoStack := redoStack s @ [lastUndoAction],
               undoStack := butlast (undoStack s)\<rparr>
         | None \<Rightarrow>
             s\<lparr>isUndoRedoAction := True, room := undoSwitch lastUndoAction (room s),
               redoStack := redoStack s @ [lastUndoAction],
               undoStack := butlast (undoStack s)\<rparr>))"

definition undoRedoTimeout :: "State \<Rightarrow> State" where
  "undoRedoTimeout s = s\<lparr>isUndoRedoAction := False\<rparr>"

text \<open>One round of the \<^verbatim>\<open>forEach\<close> over \<^verbatim>\<open>batchedTiles\<close> in \<^verbatim>\<open>redo\<close>.\<close>

definition batchStep :: "BatchedTile \<Rightarrow> Room \<Rightarrow> Room" where
  "batchStep e r =
     (case findIndex (\<lambda>layer. lname layer = b_layerName e) (layers r) of
        None \<Rightarrow> r
      | Some layerIndex \<Rightarrow>
          let kept = filter (\<lambda>t. \<not> atCell (b_x e) (b_y e) t) (tiles (layers r ! layerIndex))
          in (case b_index e of
                None \<Rightarrow> setTiles layerIndex kept r
              | Some i \<Rightarrow> setTiles layerIndex (kept @ [mkTile (b_x e) (b_y e) i]) r))"

definition redoSwitch :: "RoomAction \<Rightarrow> Room \<Rightarrow> Room" where
  "redoSwitch a r =
     (let p = payload a in
      case atype a of
        ADD_INSTANCE \<Rightarrow>
          (case p_instance p of
             None \<Rightarrow> r
           | Some instanceToAdd \<Rightarrow>
               if isStringRef (instance_layer_name instanceToAdd)
                  \<and> canPlaceObjectOnLayer r (instance_layer_name instanceToAdd)
               then r\<lparr>instances := instances r @ [instanceToAdd]\<rparr>
               else r)
      | REMOVE_INSTANCE \<Rightarrow>
          (case p_instance p of
             None \<Rightarrow> r
           | Some instanceToRemove \<Rightarrow>
               (case findIndex (sameInstance instanceToRemove) (instances r) of
                  None \<Rightarrow> r
                | Some instanceIndex \<Rightarrow>
                    r\<lparr>instances := removeAt instanceIndex (instances r)\<rparr>))
      | ADD_LAYER \<Rightarrow>
          (case p_layer p of
             None \<Rightarrow> r
           | Some layerToAdd \<Rightarrow> r\<lparr>layers := layers r @ [layerToAdd]\<rparr>)
      | REMOVE_LAYER \<Rightarrow>
          (case p_layer p of
             None \<Rightarrow> r
           | Some layerToRemove \<Rightarrow>
               r\<lparr>layers := filter (\<lambda>layer. lname layer \<noteq> lname layerToRemove) (layers r),
                 instances := filter (\<lambda>i. instance_layer_name i \<noteq> LName (lname layerToRemove))
                                (instances r)\<rparr>)
      | ADD_TILE \<Rightarrow>
          (case (truthyName (p_layerName p), p_x p, p_y p, p_tileIndex p) of
             (Some layerName, Some x, Some y, Some tileIndex) \<Rightarrow>
               (case findIndex (\<lambda>layer. lname layer = layerName) (layers r) of
                  None \<Rightarrow> r
                | Some layerIndex \<Rightarrow>
                    setTiles layerIndex
                      (filter (\<lambda>tile. \<not> atCell x y tile) (tiles (layers r ! layerIndex))
                         @ [mkTile x y tileIndex]) r)
           | _ \<Rightarrow> r)
      | REMOVE_TILE \<Rightarrow>
          (case (truthyName (p_layerName p), p_x p, p_y p, p_removedTile p) of
             (Some layerName, Some x, Some y, Some removedTile) \<Rightarrow>
               (case findIndex (\<lambda>layer. lname layer = layerName) (layers r) of
                  None \<Rightarrow> r
                | Some layerIndex \<Rightarrow>
                    setTiles layerIndex
                      (filter (\<lambda>tile. \<not> atCell x y tile) (tiles (layers r ! layerIndex))) r)
           | _ \<Rightarrow> r)
      | UPDATE_ROOM_TYPE \<Rightarrow>
          (case p_previousRoom p of
             Some previousRoom \<Rightarrow> previousRoom
           | None \<Rightarrow> r\<lparr>rtype := p_type p\<rparr>)
      | UPDATE_ROOM_BIOME \<Rightarrow>
          (case p_previousRoom p of
             Some previousRoom \<Rightarrow> previousRoom
           | None \<Rightarrow> r\<lparr>biome := p_biome p\<rparr>)
      | APPLY_TILE_BRUSH \<Rightarrow>
          (case p_previousRoom p of
             Some previousRoom \<Rightarrow> previousRoom
           | None \<Rightarrow>
               (case (truthyName (p_layerName p), p_tilesModified p) of
                  (Some layerName, Some tilesModified) \<Rightarrow>
                    (case findIndex (\<lambda>layer. lname layer = layerName) (layers r) of
                       None \<Rightarrow> r
                     | Some layerIndex \<Rightarrow>
                         let cleared =
                               fold (\<lambda>m ts. filter (\<lambda>t. \<not> atCell (m_x m) (m_y m) t) ts)
                                 tilesModified (tiles (layers r ! layerIndex));
                             restored =
                               fold (\<lambda>m ts. case m_prevIndex m of
                                               None \<Rightarrow> ts
                                             | Some i \<Rightarrow> ts @ [mkTile (m_x m) (m_y m) i])
                                 tilesModified cleared
                         in setTiles layerIndex restored r)
                | _ \<Rightarrow> r))
      | BATCH_ADD_TILES \<Rightarrow>
          (case p_batchedTiles p of
             None \<Rightarrow> r
           | Some batchedTiles \<Rightarrow> fold batchStep batchedTiles r)
      | _ \<Rightarrow> r)"

definition redo :: "State \<Rightarrow> State" where
  "redo s =
     (if redoStack s = [] then s
      else
        let lastRedoAction = last (redoStack s) in
        s\<lparr>isUndoRedoAction := True, room := redoSwitch lastRedoAction (room s),
          redoStack := butlast (redoStack s),
          undoStack := undoStack s @ [lastRedoAction]\<rparr>)"

section \<open>The brush library\<close>

text \<open>
  \<^verbatim>\<open>importBrushLibrary(jsonData)\<close> parses its argument inside \<^verbatim>\<open>try\<close>. The
  argument of the model is the outcome of \<^verbatim>\<open>JSON.parse(jsonData)\<close>: \<open>None\<close> when
  the parser throws, which the \<^verbatim>\<open>catch\<close> turns into \<^verbatim>\<open>false\<close>. The result is the
  returned flag and the new state.
\<close>

definition truthy :: "json \<Rightarrow> bool" where
  "truthy j = (case j of JNull \<Rightarrow> False | JBool b \<Rightarrow> b | JNum n \<Rightarrow> n \<noteq> 0
                 | JStr v \<Rightarrow> v \<noteq> [] | JArr _ \<Rightarrow> True | JObj _ \<Rightarrow> True)"

text \<open>
  Reading a property (\<^verbatim>\<open>brush.id\<close>); \<open>None\<close> is \<^verbatim>\<open>undefined\<close>. None of the six
  names that the import reads is a property of a string, number, boolean or array.
\<close>

definition getProp :: "json \<Rightarrow> string \<Rightarrow> json option" where
  "getProp j k = (case j of JObj kvs \<Rightarrow> map_of kvs k | _ \<Rightarrow> None)"

definition typeofString :: "json option \<Rightarrow> bool" where
  "typeofString v = (case v of Some (JStr _) \<Rightarrow> True | _ \<Rightarrow> False)"

definition typeofNumber :: "json option \<Rightarrow> bool" where
  "typeofNumber v = (case v of Some (JNum _) \<Rightarrow> True | _ \<Rightarrow> False)"

definition isArray :: "json option \<Rightarrow> bool" where
  "isArray v = (case v of Some (JArr _) \<Rightarrow> True | _ \<Rightarrow> False)"

definition validBrush :: "json \<Rightarrow> bool" where
  "validBrush brush \<longleftrightarrow>
     truthy brush
     \<and> typeofString (getProp brush ''id'')
     \<and> typeofString (getProp brush ''name'')
     \<and> isArray (getProp brush ''tiles'')
     \<and> typeofNumber (getProp brush ''width'')
     \<and> typeofNumber (getProp brush ''height'')
     \<and> typeofString (getProp brush ''texture'')"

definition importBrushLibrary :: "json option \<Rightarrow> State \<Rightarrow> bool \<times> State" where
  "importBrushLibrary parsed s =
     (case parsed of
        None \<Rightarrow> (False, s)
      | Some (JArr parsedBrushes) \<Rightarrow>
          let validBrushes = filter validBrush parsedBrushes in
          if length validBrushes > 0 then (True, s\<lparr>savedBrushes := validBrushes\<rparr>)
          else (False, s)
      | Some _ \<Rightarrow> (False, s))"

text \<open>
  The entry check in the words of the specification: an entry must have a string id and
  name, an array of tiles, a numeric width and height, and a string texture.
\<close>

definition hasField :: "(json \<Rightarrow> bool) \<Rightarrow> string \<Rightarrow> json \<Rightarrow> bool" where
  "hasField kind k entry =
     (case entry of
        JObj kvs \<Rightarrow> (case map_of kvs k of Some v \<Rightarrow> kind v | None \<Rightarrow> False)
      | _ \<Rightarrow> False)"

definition isJStr :: "json \<Rightarrow> bool" where
  "isJStr v = (case v of JStr _ \<Rightarrow> True | _ \<Rightarrow> False)"

definition isJNum :: "json \<Rightarrow> bool" where
  "isJNum v = (case v of JNum _ \<Rightarrow> True | _ \<Rightarrow> False)"

definition isJArr :: "json \<Rightarrow> bool" where
  "isJArr v = (case v of JArr _ \<Rightarrow> True | _ \<Rightarrow> False)"

definition wellFormedEntry :: "json \<Rightarrow> bool" where
  "wellFormedEntry entry \<longleftrightarrow>
     hasField isJStr ''id'' entry \<and> hasField isJStr ''name'' entry
     \<and> hasField isJArr ''tiles'' entry
     \<and> hasField isJNum ''width'' entry \<and> hasField isJNum ''height'' entry
     \<and> hasField isJStr ''texture'' entry"

section \<open>The canvas: deriving and placing a brush\<close>

text \<open>
  \<^verbatim>\<open>src/components/Canvas.tsx\<close>. The canvas state that the functions read
  (\<^verbatim>\<open>selectionArea\<close>, \<^verbatim>\<open>selectedLayer\<close>, \<^verbatim>\<open>customTileSize\<close>,
  \<^verbatim>\<open>lastTilePosition\<close>, \<^verbatim>\<open>selectedTileIndex\<close>) is passed as arguments. With a
  positive tile size \<^verbatim>\<open>Math.floor(x / tileSize)\<close> is \<open>x div tileSize\<close> and
  \<^verbatim>\<open>Math.ceil(w / tileSize)\<close> is \<open>- (- w div tileSize)\<close>. The quotient
  \<^verbatim>\<open>(tile.x - minX) / tileSize\<close> that becomes a brush coordinate is the rational
  number, whole for a tile on the grid and a fraction for a tile off it.
\<close>

record SelectionArea =
  sel_x :: int
  sel_y :: int
  sel_width :: int
  sel_height :: int

text \<open>
  \<^verbatim>\<open>getTilesInSelection\<close> also writes the \<^verbatim>\<open>selected\<close> marker of every tile of the
  layer in place; the second component is the room with the markers set.
\<close>

definition inSelection :: "SelectionArea \<Rightarrow> Tile \<Rightarrow> bool" where
  "inSelection a tile \<longleftrightarrow>
     tx tile \<ge> sel_x a \<and> tx tile < sel_x a + sel_width a
     \<and> ty tile \<ge> sel_y a \<and> ty tile < sel_y a + sel_height a"

definition getTilesInSelection ::
  "SelectionArea option \<Rightarrow> string option \<Rightarrow> Room \<Rightarrow> Tile list \<times> Room" where
  "getTilesInSelection selectionArea selectedLayer r =
     (case (selectionArea, truthyName selectedLayer) of
        (Some a, Some n) \<Rightarrow>
          (case findIndex (\<lambda>layer. lname layer = n) (layers r) of
             None \<Rightarrow> ([], r)
           | Some li \<Rightarrow>
               if ltype (layers r ! li) \<noteq> TileT then ([], r)
               else
                 let marked = map (\<lambda>tile. tile\<lparr>selected := Some (inSelection a tile)\<rparr>)
                                (tiles (layers r ! li))
                 in (filter (inSelection a) marked, setTiles li marked r))
      | _ \<Rightarrow> ([], r))"

definition copySelectionToBrush ::
  "SelectionArea option \<Rightarrow> string option \<Rightarrow> int \<Rightarrow> State \<Rightarrow> State" where
  "copySelectionToBrush selectionArea selectedLayer customTileSize s =
     (case (selectionArea, truthyName selectedLayer) of
        (Some a, Some n) \<Rightarrow>
          (case find (\<lambda>layer. lname layer = n) (layers (room s)) of
             None \<Rightarrow> s
           | Some selectedLayerObj \<Rightarrow>
               (case (ltype selectedLayerObj, truthyName (texture selectedLayerObj)) of
                  (TileT, Some tex) \<Rightarrow>
                    (case getTilesInSelection selectionArea selectedLayer (room s) of
                       ([], r) \<Rightarrow> s\<lparr>room := r\<rparr>
                     | (t # ts, r) \<Rightarrow>
                         let minX = fold min (map tx ts) (tx t);
                             minY = fold min (map ty ts) (ty t);
                             tileSize = customTileSize;
                             widthInTiles = - (- sel_width a div tileSize);
                             heightInTiles = - (- sel_height a div tileSize);
                             normalizedTiles =
                               map (\<lambda>tile.
                                      \<lparr>brx = rat_of_int (tx tile - minX) / rat_of_int tileSize,
                                       bry = rat_of_int (ty tile - minY) / rat_of_int tileSize,
                                       brindex = tindex tile\<rparr>) (t # ts);
                             brush = \<lparr>btiles = normalizedTiles, bwidth = widthInTiles,
                                      bheight = heightInTiles, btexture = tex,
                                      offsetX = widthInTiles div 2,
                                      offsetY = heightInTiles div 2\<rparr>
                         in s\<lparr>room := r, tileBrush := Some brush\<rparr>)
                | _ \<Rightarrow> s))
      | _ \<Rightarrow> s)"

text \<open>
  The anchor that \<^verbatim>\<open>placeTile\<close> passes to \<^verbatim>\<open>applyTileBrush\<close>: the cursor snapped
  down to the grid, minus the brush offset in pixels.
\<close>

definition brushTopLeft :: "int \<Rightarrow> TileBrush \<Rightarrow> int \<Rightarrow> int \<Rightarrow> int \<times> int" where
  "brushTopLeft tileSize brush x y =
     (let snappedBaseX = (x div tileSize) * tileSize;
          snappedBaseY = (y div tileSize) * tileSize
      in (snappedBaseX - offsetX brush * tileSize, snappedBaseY - offsetY brush * tileSize))"

text \<open>The result is the new state and the new \<^verbatim>\<open>lastTilePosition\<close>.\<close>

definition placeTile ::
  "string option \<Rightarrow> int \<Rightarrow> (int \<times> int) option \<Rightarrow> int \<Rightarrow> int \<Rightarrow> int \<Rightarrow> State
     \<Rightarrow> State \<times> (int \<times> int) option" where
  "placeTile selectedLayer customTileSize lastTilePosition selectedTileIndex x y s =
     (case truthyName selectedLayer of
        None \<Rightarrow> (s, lastTilePosition)
      | Some n \<Rightarrow>
          (case find (\<lambda>layer. lname layer = n) (layers (room s)) of
             None \<Rightarrow> (s, lastTilePosition)
           | Some layerObj \<Rightarrow>
               if ltype layerObj \<noteq> TileT then (s, lastTilePosition)
               else
                 let tileSize = customTileSize in
                 (case tileBrush s of
                    Some brush \<Rightarrow>
                      let topLeft = brushTopLeft tileSize brush x y
                      in (applyTileBrush n (fst topLeft) (snd topLeft) s,
                          Some ((x div tileSize) * tileSize, (y div tileSize) * tileSize))
                  | None \<Rightarrow>
                      let snappedX = (x div tileSize) * tileSize;
                          snappedY = (y div tileSize) * tileSize
                      in if snappedX < 0 \<or> snappedY < 0 \<or> snappedX \<ge> width (room s)
                            \<or> snappedY \<ge> height (room s)
                         then (s, lastTilePosition)
                         else if lastTilePosition = Some (snappedX, snappedY)
                         then (s, lastTilePosition)
                         else (addTile n snappedX snappedY selectedTileIndex s,
                               Some (snappedX, snappedY)))))"

text \<open>
  \<^verbatim>\<open>handleMouseDown\<close> with the place tool and no object selected calls
  \<^verbatim>\<open>startPainting()\<close> and then \<^verbatim>\<open>placeTile(x, y)\<close> in one handler. Both read
  the state \<open>s\<close> of the last render, so \<^verbatim>\<open>placeTile\<close> runs with the
  \<^verbatim>\<open>isPainting\<close> of \<open>s\<close>, and React applies the updates of both:
  \<^verbatim>\<open>startPainting\<close> sets the flag, empties the buffer and stores the room of \<open>s\<close>;
  what \<^verbatim>\<open>placeTile\<close> appends to the buffer is appended to the emptied buffer.
\<close>

definition mouseDownPlace ::
  "string option \<Rightarrow> int \<Rightarrow> (int \<times> int) option \<Rightarrow> int \<Rightarrow> int \<Rightarrow> int \<Rightarrow> State
     \<Rightarrow> State \<times> (int \<times> int) option" where
  "mouseDownPlace selectedLayer customTileSize lastTilePosition selectedTileIndex x y s =
     (let placed = placeTile selectedLayer customTileSize lastTilePosition
                     selectedTileIndex x y s
      in ((fst placed)\<lparr>isPainting := True,
            paintedTiles := drop (length (paintedTiles s)) (paintedTiles (fst placed)),
            initialRoomState := Some (room s)\<rparr>,
          snd placed))"

section \<open>The sidebar: renaming a layer\<close>

text \<open>
  \<^verbatim>\<open>handleSaveRename(oldName)\<close> of \<^verbatim>\<open>src/components/Sidebar.tsx\<close>, with the
  component's \<^verbatim>\<open>newName\<close> as an argument. It sets the room with \<^verbatim>\<open>setRoom\<close> and
  records no history entry. \<^verbatim>\<open>String.prototype.trim\<close> is modelled for the white
  space of ASCII (tab, line feed, vertical tab, form feed, carriage return, space).
\<close>

definition isWhiteSpace :: "char \<Rightarrow> bool" where
  "isWhiteSpace c \<longleftrightarrow>
     c = CHR '' '' \<or> (9 \<le> (of_char c :: nat) \<and> (of_char c :: nat) \<le> 13)"

definition trim :: "string \<Rightarrow> string" where
  "trim v = rev (dropWhile isWhiteSpace (rev (dropWhile isWhiteSpace v)))"

definition handleSaveRename :: "string \<Rightarrow> string \<Rightarrow> State \<Rightarrow> State" where
  "handleSaveRename newName oldName s =
     (if trim newName = [] \<or> newName = oldName then s
      else
        (case find (\<lambda>l. lname l = oldName) (layers (room s)) of
           None \<Rightarrow> s
         | Some _ \<Rightarrow>
             s\<lparr>room := (room s)
                  \<lparr>layers := map (\<lambda>layer. if lname layer = oldName
                                            then layer\<lparr>lname := trim newName\<rparr> else layer)
                                (layers (room s)),
                   instances := map (\<lambda>i. if instance_layer_name i = LName oldName
                                            then i\<lparr>instance_layer_name := LName (trim newName)\<rparr>
                                            else i)
                                  (instances (room s))\<rparr>\<rparr>))"

section \<open>Sequences of commands\<close>

text \<open>
  The mutation commands of the editor, as one datatype: those that the context exports
  and the renaming of a layer, which the sidebar implements. \<open>run\<close> is the state after
  a list of them has run, one event each. An exception thrown by a command leaves the
  state as it was.
\<close>

datatype command =
    SetRoomName string
  | AddInstance Instance
  | RemoveInstance int
  | AddLayer Layer
  | RemoveLayer string
  | ToggleLayerVisibility string
  | UpdateLayerType string layer_type
  | UpdateLayerTexture string string
  | RenameLayer string string
  | AddTile string int int int
  | RemoveTile string int int
  | UpdateRoomSize int int
  | UpdateRoomType "string option"
  | UpdateRoomBiome "string option"
  | UpdateRoomChance "int option"
  | ApplyTileBrush string int int

fun exec :: "command \<Rightarrow> State \<Rightarrow> State" where
  "exec (SetRoomName n) s = setRoomName n s"
| "exec (AddInstance i) s = addInstance i s"
| "exec (RemoveInstance k) s = (case removeInstance k s of Inl _ \<Rightarrow> s | Inr s' \<Rightarrow> s')"
| "exec (AddLayer l) s = addLayer l s"
| "exec (RemoveLayer n) s = removeLayer n s"
| "exec (ToggleLayerVisibility n) s = toggleLayerVisibility n s"
| "exec (UpdateLayerType n t) s = updateLayerType n t s"
| "exec (UpdateLayerTexture n t) s = updateLayerTexture n t s"
| "exec (RenameLayer old new) s = handleSaveRename new old s"
| "exec (AddTile n x y i) s = addTile n x y i s"
| "exec (RemoveTile n x y) s = removeTile n x y s"
| "exec (UpdateRoomSize w h) s = updateRoomSize w h s"
| "exec (UpdateRoomType t) s = updateRoomType t s"
| "exec (UpdateRoomBiome b) s = updateRoomBiome b s"
| "exec (UpdateRoomChance c) s = updateRoomChance c s"
| "exec (ApplyTileBrush n x y) s = applyTileBrush n x y s"

definition run :: "command list \<Rightarrow> State \<Rightarrow> State" where
  "run cs s = fold exec cs s"

section \<open>Predicates and scenarios of the statements\<close>

text \<open>
  A position is cut by a resize to \<open>w\<close> by \<open>h\<close> when a coordinate is at or beyond the
  new bound or negative.
\<close>

definition outsideRoom :: "int \<Rightarrow> int \<Rightarrow> int \<Rightarrow> int \<Rightarrow> bool" where
  "outsideRoom w h x y \<longleftrightarrow> x \<ge> w \<or> y \<ge> h \<or> x < 0 \<or> y < 0"

text \<open>
  The default room with a 2 by 2 block of tiles in its tile layer, and the state after
  that block has been copied to the brush with a 32 by 32 selection at the origin.
\<close>

definition squareState :: State where
  "squareState =
     run [AddTile ''TilesForest'' 0 0 1, AddTile ''TilesForest'' 16 0 2,
          AddTile ''TilesForest'' 0 16 3, AddTile ''TilesForest'' 16 16 4] initialState"

definition squareBrushState :: State where
  "squareBrushState =
     copySelectionToBrush (Some \<lparr>sel_x = 0, sel_y = 0, sel_width = 32, sel_height = 32\<rparr>)
       (Some ''TilesForest'') 16 squareState"

definition squareBrush :: TileBrush where
  "squareBrush =
     \<lparr>btiles = [\<lparr>brx = 0, bry = 0, brindex = 1\<rparr>, \<lparr>brx = 1, bry = 0, brindex = 2\<rparr>,
                \<lparr>brx = 0, bry = 1, brindex = 3\<rparr>, \<lparr>brx = 1, bry = 1, brindex = 4\<rparr>],
      bwidth = 2, bheight = 2, btexture = ''tileset_forest'', offsetX = 1, offsetY = 1\<rparr>"

text \<open>The default room after a tile was placed and its layer was retyped to an object layer.\<close>

definition retypedState :: State where
  "retypedState =
     run [AddTile ''TilesForest'' 704 0 1, UpdateLayerType ''TilesForest'' ObjectT]
       initialState"

text \<open>A well-formed library entry other than the example brush.\<close>

definition importedBrush :: json where
  "importedBrush =
     JObj [(''id'', JStr ''brush_1''), (''name'', JStr ''Wall''), (''tiles'', JArr []),
           (''width'', JNum 2), (''height'', JNum 1), (''texture'', JStr ''tileset_forest'')]"

text \<open>
  At most one tile per cell: the cells of a tile array are pairwise different, in every
  layer of the room. A command is well-formed when the layer it adds, if it adds one,
  obeys this itself.
\<close>

definition cellsDistinct :: "Tile list \<Rightarrow> bool" where
  "cellsDistinct ts \<longleftrightarrow> distinct (map (\<lambda>t. (tx t, ty t)) ts)"

definition oneTilePerCell :: "Room \<Rightarrow> bool" where
  "oneTilePerCell r \<longleftrightarrow> list_all (\<lambda>l. cellsDistinct (tiles l)) (layers r)"

definition commandOk :: "command \<Rightarrow> bool" where
  "commandOk c = (case c of AddLayer l \<Rightarrow> cellsDistinct (tiles l) | _ \<Rightarrow> True)"

text \<open>
  The cell on which a brush tile lands when the brush is applied at \<open>(x, y)\<close>, whether
  the cell lies in the room, and the index that a brush leaves at a cell: that of the last
  of its tiles that land on the cell inside the room, if there is one.
\<close>

definition brushCell :: "int \<Rightarrow> int \<Rightarrow> BrushTile \<Rightarrow> int \<times> int" where
  "brushCell x y bt = (x + jsRound (brx bt * 16), y + jsRound (bry bt * 16))"

definition cellInRoom :: "Room \<Rightarrow> int \<times> int \<Rightarrow> bool" where
  "cellInRoom r c \<longleftrightarrow> 0 \<le> fst c \<and> 0 \<le> snd c \<and> fst c < width r \<and> snd c < height r"

definition placedIndex :: "Room \<Rightarrow> int \<Rightarrow> int \<Rightarrow> BrushTile list \<Rightarrow> int \<times> int \<Rightarrow> int option" where
  "placedIndex r x y bts c =
     map_option brindex
       (find (\<lambda>bt. brushCell x y bt = c \<and> cellInRoom r c) (rev bts))"

text \<open>A layer with two tiles in one cell.\<close>

definition doubledLayer :: Layer where
  "doubledLayer =
     \<lparr>lname = ''Doubled'', depth = 200, ltype = TileT, visible = True,
      tiles = [mkTile 0 0 1, mkTile 0 0 2], texture = Some ''tileset_forest''\<rparr>"






text \<open>
  The commands whose undo is covered below are all but \<^verbatim>\<open>removeTile\<close>,
  \<^verbatim>\<open>updateRoomChance\<close> and the renaming of a layer. \<open>recorded cs s\<close> is the
  number of history entries that running \<open>cs\<close> from \<open>s\<close> has pushed.
\<close>

definition recording :: "command \<Rightarrow> bool" where
  "recording c =
     (case c of RemoveTile _ _ _ \<Rightarrow> False | UpdateRoomChance _ \<Rightarrow> False
      | RenameLayer _ _ \<Rightarrow> False | _ \<Rightarrow> True)"

definition recorded :: "command list \<Rightarrow> State \<Rightarrow> nat" where
  "recorded cs s = length (undoStack (run cs s)) - length (undoStack s)"

text \<open>A state is idle when no paint session is open and no undo or redo is being replayed.\<close>

definition idle :: "State \<Rightarrow> bool" where
  "idle s \<longleftrightarrow> \<not> isUndoRedoAction s \<and> \<not> isPainting s"

text \<open>
  What a covered command does to the history of an idle state: nothing at all, or it
  pushes one entry that holds the room before the command.
\<close>

definition stepped :: "State \<Rightarrow> State \<Rightarrow> bool" where
  "stepped s s' \<longleftrightarrow>
     idle s' \<and>
     (s' = s \<or>
      (undoStack s' \<noteq> [] \<and> butlast (undoStack s') = undoStack s
       \<and> p_previousRoom (payload (last (undoStack s'))) = Some (room s)))"

text \<open>An instance addressed to the tile layer of the default room.\<close>

definition treeOnTileLayer :: Instance where
  "treeOnTileLayer =
     \<lparr>instance_layer_name = LName ''TilesForest'', obj_name = ''oTree'', ix = 16, iy = 32\<rparr>"

text \<open>An instance addressed to the object layer of the default room.\<close>

definition treeOnObjects :: Instance where
  "treeOnObjects =
     \<lparr>instance_layer_name = LName ''Objects'', obj_name = ''oTree'', ix = 16, iy = 32\<rparr>"

text \<open>The commands whose history entries \<^verbatim>\<open>redo\<close> replays from the entry's own data.\<close>

definition replayable :: "command \<Rightarrow> bool" where
  "replayable c =
     (case c of AddInstance _ \<Rightarrow> True | AddLayer _ \<Rightarrow> True | RemoveLayer _ \<Rightarrow> True
      | _ \<Rightarrow> False)"

definition sampleCommands :: "command list" where
  "sampleCommands =
     [SetRoomName ''Cave'', AddTile ''TilesForest'' 16 16 3, AddInstance treeOnTileLayer,
      UpdateRoomSize 640 480]"

text \<open>Five additions to the tile layer, and five to the object layer, of the default room.\<close>

definition fiveAdds :: "command list" where
  "fiveAdds =
     [AddTile ''TilesForest'' 0 0 1, AddTile ''TilesForest'' 16 0 1,
      AddTile ''TilesForest'' 32 0 1, AddTile ''TilesForest'' 48 0 1,
      AddTile ''TilesForest'' 64 0 1]"


section \<open>Auxiliary lemmas\<close>

lemma find_SomeD: "find P xs = Some x \<Longrightarrow> P x \<and> x \<in> set xs"
  by (induction xs) (auto split: if_splits)

lemma findIndex_SomeD:
  "findIndex P xs = Some i \<Longrightarrow> i < length xs \<and> P (xs ! i) \<and> (\<forall>j<i. \<not> P (xs ! j))"
proof (induction xs arbitrary: i)
  case Nil
  then show ?case by simp
next
  case (Cons x xs)
  show ?case
  proof (cases "P x")
    case True
    with Cons.prems show ?thesis by simp
  next
    case False
    with Cons.prems obtain k where k: "findIndex P xs = Some k" "i = Suc k"
      by auto
    from Cons.IH[OF k(1)] False k(2) show ?thesis
      by (auto simp: less_Suc_eq_0_disj)
  qed
qed

lemma findIndex_None_iff: "findIndex P xs = None \<longleftrightarrow> (\<forall>x\<in>set xs. \<not> P x)"
  by (induction xs) auto

lemma find_findIndex: "find P xs = map_option (\<lambda>i. xs ! i) (findIndex P xs)"
  by (induction xs) (auto simp: option.map_comp comp_def)

lemma validBrush_wellFormed: "validBrush e = wellFormedEntry e"
  by (cases e)
     (auto simp: validBrush_def wellFormedEntry_def hasField_def getProp_def truthy_def
        typeofString_def typeofNumber_def isArray_def isJStr_def isJNum_def isJArr_def
        split: option.splits json.splits)

lemma room_addToHistory [simp]: "room (addToHistory a s) = room s"
  by (simp add: addToHistory_def)

lemma room_updateRoomWithHistory [simp]: "room (updateRoomWithHistory newRoom a s) = newRoom"
  by (simp add: updateRoomWithHistory_def Let_def)

lemma cell_mkTile [simp]:
  "tx (mkTile x y k) = x" "ty (mkTile x y k) = y" "tindex (mkTile x y k) = k"
  by (simp_all add: mkTile_def)

lemma atCell_mkTile [simp]: "atCell x y (mkTile x y k)"
  by (simp add: atCell_def)

section \<open>Undo followed by redo\<close>

text \<open>
  Claim C1 says that \<^verbatim>\<open>undo()\<close> followed by \<^verbatim>\<open>redo()\<close> gives back the room as it
  was before the undo, for every kind of history entry. The code does not: for an
  \<^verbatim>\<open>UPDATE_ROOM_TYPE\<close> entry \<^verbatim>\<open>redo\<close> sets the room to the entry's
  \<^verbatim>\<open>previousRoom\<close>, which is the room before the command. In the default room,
  after \<^verbatim>\<open>updateRoomType('boss')\<close> the type is \<^verbatim>\<open>'boss'\<close>; after undo and redo
  it is undefined.
\<close>

theorem redo_update_room_type_keeps_old_type:
  "rtype (room (updateRoomType (Some ''boss'') initialState)) = Some ''boss''
   \<and> rtype (room (redo (undo (updateRoomType (Some ''boss'') initialState)))) = None"
  by (simp add: updateRoomType_def updateRoomWithHistory_def addToHistory_def undo_def
      redo_def redoSwitch_def initialState_def defaultRoom_def createNewRoom_def
      emptyPayload_def)

subsection \<open>Entries that redo replays\<close>

lemma canPlace_isStringRef:
  "canPlaceObjectOnLayer r ref \<Longrightarrow> isStringRef ref"
  by (auto simp: canPlaceObjectOnLayer_def isStringRef_def split: option.splits
      dest!: find_SomeD)

lemma round_trip_addInstance:
  assumes "idle s" "addInstance i s \<noteq> s"
  shows "room (undo (addInstance i s)) = room s
     \<and> room (redo (undo (addInstance i s))) = room (addInstance i s)"
proof -
  from assms(2) have cp: "canPlaceObjectOnLayer (room s) (instance_layer_name i)"
    by (auto simp: addInstance_def split: if_splits)
  from assms(1) cp canPlace_isStringRef[OF cp] show ?thesis
    by (simp add: addInstance_def idle_def updateRoomWithHistory_def addToHistory_def
        undo_def redo_def redoSwitch_def Let_def emptyPayload_def)
qed

lemma round_trip_addLayer:
  assumes "idle s"
  shows "room (undo (addLayer l s)) = room s
     \<and> room (redo (undo (addLayer l s))) = room (addLayer l s)"
  using assms
  by (simp add: addLayer_def idle_def updateRoomWithHistory_def addToHistory_def
      undo_def redo_def redoSwitch_def Let_def emptyPayload_def)

lemma round_trip_removeLayer:
  assumes "idle s" "removeLayer n s \<noteq> s"
  shows "room (undo (removeLayer n s)) = room s
     \<and> room (redo (undo (removeLayer n s))) = room (removeLayer n s)"
proof -
  from assms(2) obtain l where f: "find (\<lambda>layer. lname layer = n) (layers (room s)) = Some l"
    by (auto simp: removeLayer_def split: option.splits)
  from find_SomeD[OF f] have n: "lname l = n"
    by simp
  from assms(1) f n show ?thesis
    by (simp add: removeLayer_def idle_def updateRoomWithHistory_def addToHistory_def
        undo_def redo_def redoSwitch_def Let_def emptyPayload_def)
qed

text \<open>
  For the entries of \<^verbatim>\<open>addInstance\<close>, \<^verbatim>\<open>addLayer\<close> and \<^verbatim>\<open>removeLayer\<close> the
  round trip does hold: when such a command has changed the state of an idle provider,
  \<^verbatim>\<open>undo()\<close> gives back the room before the command, and \<^verbatim>\<open>redo()\<close> after it
  gives back the room that the command had produced.
\<close>

theorem undo_redo_round_trip:
  assumes "\<not> isUndoRedoAction s" "\<not> isPainting s" "replayable c" "exec c s \<noteq> s"
  shows "room (undo (exec c s)) = room s
     \<and> room (redo (undo (exec c s))) = room (exec c s)"
proof -
  from assms(1,2) have i: "idle s"
    by (simp add: idle_def)
  show ?thesis
  proof (cases c)
    case (AddInstance inst)
    with round_trip_addInstance[OF i, of inst] assms(4) show ?thesis by simp
  next
    case (AddLayer l)
    with round_trip_addLayer[OF i, of l] show ?thesis by simp
  next
    case (RemoveLayer n)
    with round_trip_removeLayer[OF i, of n] assms(4) show ?thesis by simp
  qed (use assms(3) in \<open>simp_all add: replayable_def\<close>)
qed

theorem undo_redo_round_trip_witness:
  "\<not> isUndoRedoAction initialState \<and> \<not> isPainting initialState
   \<and> replayable (AddInstance treeOnObjects)
   \<and> exec (AddInstance treeOnObjects) initialState \<noteq> initialState
   \<and> instances (room (redo (undo (exec (AddInstance treeOnObjects) initialState))))
       = [treeOnObjects]"
proof -
  have a: "\<not> isUndoRedoAction initialState" and b: "\<not> isPainting initialState"
    by (simp_all add: initialState_def)
  have c: "replayable (AddInstance treeOnObjects)"
    by (simp add: replayable_def)
  have r: "instances (room (exec (AddInstance treeOnObjects) initialState)) = [treeOnObjects]"
    by code_simp
  have "instances (room initialState) = []"
    by code_simp
  with r have d: "exec (AddInstance treeOnObjects) initialState \<noteq> initialState"
    by auto
  from undo_redo_round_trip[OF a b c d] r a b c d show ?thesis by simp
qed

section \<open>Undoing a sequence of commands\<close>

lemma stepped_refl: "idle s \<Longrightarrow> stepped s s"
  by (simp add: stepped_def)

lemma stepped_updateRoomWithHistory:
  "idle s \<Longrightarrow> stepped s (updateRoomWithHistory newRoom a s)"
  by (simp add: stepped_def idle_def updateRoomWithHistory_def addToHistory_def Let_def)

lemma stepped_addToHistory:
  "idle s \<Longrightarrow> p_previousRoom (payload a) = Some (room s) \<Longrightarrow>
   stepped s ((addToHistory a (s\<lparr>room := r'\<rparr>))\<lparr>room := r''\<rparr>)"
  by (simp add: stepped_def idle_def addToHistory_def)

lemma stepped_exec:
  assumes "idle s" "recording c"
  shows "stepped s (exec c s)"
proof (cases c)
  case (AddInstance i)
  with assms(1) show ?thesis
    by (simp add: addInstance_def stepped_refl stepped_updateRoomWithHistory)
next
  case (RemoveInstance k)
  with assms(1) show ?thesis
    by (simp add: removeInstance_def stepped_refl stepped_updateRoomWithHistory)
next
  case (RemoveLayer n)
  with assms(1) show ?thesis
    by (simp add: removeLayer_def stepped_refl stepped_updateRoomWithHistory
        split: option.splits)
next
  case (AddTile n x y k)
  with assms(1) show ?thesis
    by (simp add: addTile_def Let_def stepped_refl stepped_updateRoomWithHistory idle_def
        split: option.splits)
next
  case (UpdateRoomSize w h)
  with assms(1) stepped_addToHistory[OF assms(1), where r'' = "room (updateRoomSize w h s)"]
  show ?thesis
    by (simp add: updateRoomSize_def Let_def addToHistory_def stepped_def idle_def)
next
  case (ApplyTileBrush n x y)
  with assms(1) show ?thesis
    by (simp add: applyTileBrush_def Let_def addToHistory_def stepped_def idle_def
        split: option.splits)
next
  case (RemoveTile n x y)
  with assms(2) show ?thesis by (simp add: recording_def)
next
  case (UpdateRoomChance ch)
  with assms(2) show ?thesis by (simp add: recording_def)
next
  case (RenameLayer old new)
  with assms(2) show ?thesis by (simp add: recording_def)
qed (use assms(1) in \<open>simp_all add: setRoomName_def addLayer_def toggleLayerVisibility_def
      updateLayerType_def updateLayerTexture_def updateRoomType_def updateRoomBiome_def
      Let_def stepped_updateRoomWithHistory\<close>)

lemma undo_cong:
  assumes "room a = room b" "undoStack a = undoStack b"
  shows "room (undo a) = room (undo b) \<and> undoStack (undo a) = undoStack (undo b)"
  using assms by (simp add: undo_def Let_def split: option.splits)

lemma undo_funpow_cong:
  assumes "room a = room b" "undoStack a = undoStack b"
  shows "room ((undo ^^ k) a) = room ((undo ^^ k) b)
         \<and> undoStack ((undo ^^ k) a) = undoStack ((undo ^^ k) b)"
  using assms
proof (induction k arbitrary: a b)
  case 0
  then show ?case by simp
next
  case (Suc k)
  from undo_cong[OF Suc.prems] Suc.IH[of "undo a" "undo b"] show ?case
    by (simp add: funpow_swap1)
qed

lemma undo_stepped:
  assumes "stepped s s'" "s' \<noteq> s"
  shows "room (undo s') = room s \<and> undoStack (undo s') = undoStack s"
  using assms by (auto simp: stepped_def undo_def Let_def)

lemma undo_all_aux:
  assumes "idle s" "list_all recording cs"
  shows "idle (run cs s) \<and> length (undoStack s) \<le> length (undoStack (run cs s))
     \<and> recorded cs s \<le> length cs
     \<and> room ((undo ^^ recorded cs s) (run cs s)) = room s
     \<and> undoStack ((undo ^^ recorded cs s) (run cs s)) = undoStack s"
  using assms
proof (induction cs rule: rev_induct)
  case Nil
  then show ?case by (simp add: run_def recorded_def)
next
  case (snoc c cs)
  let ?t = "run cs s"
  from snoc.prems have cs: "list_all recording cs" and c: "recording c"
    by simp_all
  note ih = snoc.IH[OF snoc.prems(1) cs]
  have r: "run (cs @ [c]) s = exec c ?t"
    by (simp add: run_def)
  from ih have it: "idle ?t"
    by simp
  note st = stepped_exec[OF it c]
  show ?case
  proof (cases "exec c ?t = ?t")
    case True
    with ih r show ?thesis by (simp add: recorded_def)
  next
    case False
    with st have ne: "undoStack (exec c ?t) \<noteq> []"
      and bl: "butlast (undoStack (exec c ?t)) = undoStack ?t"
      by (auto simp: stepped_def)
    from bl have "length (undoStack ?t) = length (undoStack (exec c ?t)) - 1"
      by (metis length_butlast)
    with ne have len: "length (undoStack (exec c ?t)) = Suc (length (undoStack ?t))"
      by (cases "undoStack (exec c ?t)") simp_all
    from ih have le: "length (undoStack s) \<le> length (undoStack ?t)"
      by simp
    from len le have k: "recorded (cs @ [c]) s = Suc (recorded cs s)"
      unfolding r recorded_def by (simp add: Suc_diff_le)
    note u = undo_stepped[OF st False]
    from undo_funpow_cong[of "undo (exec c ?t)" ?t "recorded cs s"] u
    have "room ((undo ^^ recorded cs s) (undo (exec c ?t))) = room ((undo ^^ recorded cs s) ?t)"
      and "undoStack ((undo ^^ recorded cs s) (undo (exec c ?t)))
             = undoStack ((undo ^^ recorded cs s) ?t)"
      by simp_all
    with ih st len k show ?thesis
      unfolding r by (simp add: funpow_swap1 stepped_def)
  qed
qed

text \<open>
  The three commands that are left out. \<^verbatim>\<open>updateRoomChance\<close> records no entry
  (see the section on the room chance). Outside a paint session the entry of
  \<^verbatim>\<open>removeTile\<close> holds the room after the removal, so its undo leaves the tile
  removed: in the room with the 2 by 2 block, the tile with index 1 is still missing
  after \<^verbatim>\<open>removeTile\<close> and \<^verbatim>\<open>undo\<close>. The renaming of a layer sets the room
  and records no entry, so \<^verbatim>\<open>undo\<close> has nothing to take back.
\<close>

lemma undo_of_remove_tile_leaves_tile_removed:
  "map tindex (tiles (layers (room squareState) ! 0)) = [1, 2, 3, 4]
   \<and> map tindex (tiles (layers (room (removeTile ''TilesForest'' 0 0 squareState)) ! 0))
       = [2, 3, 4]
   \<and> map tindex (tiles (layers (room (undo (removeTile ''TilesForest'' 0 0 squareState))) ! 0))
       = [2, 3, 4]"
  by code_simp

lemma rename_layer_records_nothing:
  "undoStack (exec (RenameLayer ''TilesForest'' ''Ground'') initialState) = []
   \<and> map lname (layers (room (exec (RenameLayer ''TilesForest'' ''Ground'') initialState)))
       = [''Ground'', ''Objects'']
   \<and> map lname (layers (room (undo (exec (RenameLayer ''TilesForest'' ''Ground'')
                                        initialState))))
       = [''Ground'', ''Objects'']"
  by code_simp

text \<open>
  Claim C2, as amended: from a state in which no paint session is open
  (\<^verbatim>\<open>isPainting\<close> false) and no undo or redo is being replayed
  (\<^verbatim>\<open>isUndoRedoAction\<close> false), after any sequence of mutation commands other than
  \<^verbatim>\<open>removeTile\<close>, \<^verbatim>\<open>updateRoomChance\<close> and the renaming of a layer, each
  command an event of its own, calling \<^verbatim>\<open>undo()\<close> once for every history entry that
  the sequence has recorded (at most one per command; a command that is a silent no-op
  or throws records none) gives back the room as it was before the first command.
\<close>

theorem undo_all_restores:
  assumes "\<not> isUndoRedoAction s" "\<not> isPainting s" "list_all recording cs"
  shows "recorded cs s \<le> length cs
     \<and> room ((undo ^^ recorded cs s) (run cs s)) = room s"
proof -
  from assms(1,2) have "idle s"
    by (simp add: idle_def)
  from undo_all_aux[OF this assms(3)] show ?thesis
    by simp
qed

theorem undo_all_restores_witness:
  "\<not> isUndoRedoAction initialState \<and> \<not> isPainting initialState
   \<and> list_all recording sampleCommands
   \<and> recorded sampleCommands initialState = 3
   \<and> room (undo (undo (undo (run sampleCommands initialState)))) = room initialState"
proof -
  have a: "\<not> isUndoRedoAction initialState" and b: "\<not> isPainting initialState"
    by (simp_all add: initialState_def)
  have c: "list_all recording sampleCommands"
    by (simp add: sampleCommands_def recording_def)
  have k: "recorded sampleCommands initialState = 3"
    by code_simp
  from undo_all_restores[OF a b c] k
  have "room ((undo ^^ 3) (run sampleCommands initialState)) = room initialState"
    by simp
  then have "room (undo (undo (undo (run sampleCommands initialState)))) = room initialState"
    by (simp add: numeral_3_eq_3)
  with a b c k show ?thesis by simp
qed

text \<open>
  The claim as stated counts one undo per command. A command that is a silent no-op
  records nothing, so the undo that is counted for it takes back an older entry: after
  the room was renamed to \<^verbatim>\<open>Cave\<close>, one rejected \<^verbatim>\<open>addInstance\<close> followed by one
  \<^verbatim>\<open>undo()\<close> gives the room its former name back.
\<close>

theorem undo_after_noop_takes_back_older_entry:
  "name (room (setRoomName ''Cave'' initialState)) = ''Cave''
   \<and> length [AddInstance treeOnTileLayer] = 1
   \<and> name (room (undo (run [AddInstance treeOnTileLayer]
                          (setRoomName ''Cave'' initialState)))) = ''New Room''"
  by code_simp

section \<open>The paint session\<close>












text \<open>
  Left out of the amended claim: the stroke as the canvas starts it. Its mouse-down
  handler calls \<^verbatim>\<open>startPainting\<close> and places the first tile in one event, so that
  tile is recorded by an \<^verbatim>\<open>ADD_TILE\<close> entry of its own, and a stroke of five tiles
  ends with two entries.
\<close>

lemma canvas_stroke_leaves_two_entries:
  "map atype
     (undoStack (endPainting (run (tl fiveAdds)
        (fst (mouseDownPlace (Some ''TilesForest'') 16 None 1 0 0 initialState)))))
   = [ADD_TILE, BATCH_ADD_TILES]"
  by code_simp

section \<open>The room chance\<close>

text \<open>
  Claim C4 says that every mutation command, \<^verbatim>\<open>updateRoomChance\<close> in particular,
  yields a history entry, so that undo restores the previous chance. The code records
  no entry for \<^verbatim>\<open>updateRoomChance\<close>: in the default room (chance 100) the undo
  stack is still empty after \<^verbatim>\<open>updateRoomChance(50)\<close>, and after \<^verbatim>\<open>undo()\<close> the
  chance is still 50.
\<close>

theorem update_room_chance_records_nothing:
  "chance (room initialState) = Some 100
   \<and> undoStack (updateRoomChance (Some 50) initialState) = []
   \<and> chance (room (undo (updateRoomChance (Some 50) initialState))) = Some 50"
  by (simp add: updateRoomChance_def undo_def initialState_def defaultRoom_def
      createNewRoom_def)

section \<open>Placing a brush\<close>

text \<open>
  Claim C5, as amended: the brush derived from a 2 by 2 selection of four tiles has the
  hot spot (1, 1); placed with the cursor at (100, 100) and tile size 16, its anchor is
  the cursor snapped down to (96, 96) minus 16 in each direction, that is (80, 80), and
  its four tiles land at (80, 80), (96, 80), (80, 96) and (96, 96).
\<close>

theorem brush_anchor_at_80:
  "tileBrush squareBrushState = Some squareBrush
   \<and> brushTopLeft 16 squareBrush 100 100 = (80, 80)
   \<and> map (\<lambda>t. (tx t, ty t, tindex t))
        (drop 4 (tiles (layers (room (fst (placeTile (Some ''TilesForest'') 16 None 0
                                             100 100 squareBrushState))) ! 0)))
      = [(80, 80, 1), (96, 80, 2), (80, 96, 3), (96, 96, 4)]"
  by code_simp

text \<open>
  The anchor is not (84, 84), the position that the claim names, and no tile is placed
  there.
\<close>

theorem brush_anchor_not_84:
  "brushTopLeft 16 squareBrush 100 100 \<noteq> (84, 84)
   \<and> filter (atCell 84 84)
        (tiles (layers (room (fst (placeTile (Some ''TilesForest'') 16 None 0
                                     100 100 squareBrushState))) ! 0)) = []"
  by code_simp

section \<open>Resizing the room\<close>

text \<open>
  Claim C6, as amended: \<^verbatim>\<open>updateRoomSize(w, h)\<close> sets the width and height, keeps of
  the instances exactly those not outside the new bounds, in their order, keeps of the
  tiles of every layer of type \<^verbatim>\<open>'tile'\<close> exactly those not outside the new bounds, in
  their order, and leaves the tiles of a layer of type \<^verbatim>\<open>'object'\<close>, every other
  field of every layer and every other field of the room as they were.
\<close>

theorem update_room_size_prunes:
  "width (room (updateRoomSize w h s)) = w \<and> height (room (updateRoomSize w h s)) = h
   \<and> instances (room (updateRoomSize w h s)) =
       filter (\<lambda>i. \<not> outsideRoom w h (ix i) (iy i)) (instances (room s))
   \<and> length (layers (room (updateRoomSize w h s))) = length (layers (room s))
   \<and> (\<forall>k < length (layers (room s)).
        tiles (layers (room (updateRoomSize w h s)) ! k) =
          (if ltype (layers (room s) ! k) = TileT
           then filter (\<lambda>t. \<not> outsideRoom w h (tx t) (ty t)) (tiles (layers (room s) ! k))
           else tiles (layers (room s) ! k))
        \<and> (layers (room (updateRoomSize w h s)) ! k)\<lparr>tiles := tiles (layers (room s) ! k)\<rparr>
            = layers (room s) ! k)
   \<and> (room (updateRoomSize w h s))\<lparr>width := width (room s), height := height (room s),
        layers := layers (room s), instances := instances (room s)\<rparr> = room s"
proof -
  have nb: "\<And>x y. inBounds w h x y \<longleftrightarrow> \<not> outsideRoom w h x y"
    by (auto simp: inBounds_def outsideRoom_def)
  have r: "room (updateRoomSize w h s) =
      (room s)\<lparr>width := w, height := h,
        layers := map (\<lambda>layer. if ltype layer = TileT
            then layer\<lparr>tiles := filter (\<lambda>t. \<not> outsideRoom w h (tx t) (ty t)) (tiles layer)\<rparr>
            else layer) (layers (room s)),
        instances := filter (\<lambda>i. \<not> outsideRoom w h (ix i) (iy i)) (instances (room s))\<rparr>"
    by (simp add: updateRoomSize_def addToHistory_def Let_def nb)
  show ?thesis unfolding r by simp
qed

theorem update_room_size_prunes_witness:
  "0 < length (layers (room squareState))
   \<and> tiles (layers (room (updateRoomSize 16 16 squareState)) ! 0) = [mkTile 0 0 1]"
proof -
  have len: "0 < length (layers (room squareState))"
    by code_simp
  have lt: "ltype (layers (room squareState) ! 0) = TileT"
    by code_simp
  have ts: "filter (\<lambda>t. \<not> outsideRoom 16 16 (tx t) (ty t))
              (tiles (layers (room squareState) ! 0)) = [mkTile 0 0 1]"
    by code_simp
  from update_room_size_prunes[of 16 16 squareState] len
  have "tiles (layers (room (updateRoomSize 16 16 squareState)) ! 0) =
          (if ltype (layers (room squareState) ! 0) = TileT
           then filter (\<lambda>t. \<not> outsideRoom 16 16 (tx t) (ty t))
                  (tiles (layers (room squareState) ! 0))
           else tiles (layers (room squareState) ! 0))"
    by blast
  with len lt ts show ?thesis by simp
qed

text \<open>
  The claim as stated fails for a tile held by an object layer: after a resize to
  640 by 480 the retyped layer still holds its tile at x = 704, and when the layer is
  typed \<^verbatim>\<open>'tile'\<close> again it is a tile layer with a tile beyond the width.
\<close>

theorem update_room_size_keeps_object_layer_tiles:
  "width (room (updateRoomSize 640 480 retypedState)) = 640
   \<and> map tx (tiles (layers (room (updateRoomSize 640 480 retypedState)) ! 0)) = [704]
   \<and> map (\<lambda>l. (ltype l, map tx (tiles l)))
        (layers (room (updateLayerType ''TilesForest'' TileT
                         (updateRoomSize 640 480 retypedState))))
       = [(TileT, [704]), (ObjectT, [])]"
  by code_simp

section \<open>One tile per cell\<close>

lemma cellsDistinct_update:
  assumes "findIndex (atCell x y) ts = Some i" "cellsDistinct ts"
  shows "cellsDistinct (ts[i := mkTile x y k])"
proof -
  from findIndex_SomeD[OF assms(1)] have i: "i < length ts" "atCell x y (ts ! i)"
    by simp_all
  have "map (\<lambda>t. (tx t, ty t)) (ts[i := mkTile x y k]) = (map (\<lambda>t. (tx t, ty t)) ts)[i := (x, y)]"
    by (simp add: map_update)
  also have "\<dots> = map (\<lambda>t. (tx t, ty t)) ts"
    using i by (intro list_update_same_conv[THEN iffD2]) (simp_all add: atCell_def)
  finally show ?thesis using assms(2) by (simp add: cellsDistinct_def)
qed

lemma cellsDistinct_append:
  assumes "findIndex (atCell x y) ts = None" "cellsDistinct ts"
  shows "cellsDistinct (ts @ [mkTile x y k])"
  using assms by (auto simp: cellsDistinct_def findIndex_None_iff atCell_def)

lemma cellsDistinct_filter: "cellsDistinct ts \<Longrightarrow> cellsDistinct (filter P ts)"
  by (simp add: cellsDistinct_def distinct_map_filter)

lemma distinct_removeAt: "distinct xs \<Longrightarrow> distinct (removeAt i xs)"
  by (simp add: removeAt_def set_take_disj_set_drop_if_distinct)

lemma map_removeAt: "map f (removeAt i xs) = removeAt i (map f xs)"
  by (simp add: removeAt_def take_map drop_map)

lemma cellsDistinct_removeAt: "cellsDistinct ts \<Longrightarrow> cellsDistinct (removeAt i ts)"
  by (simp add: cellsDistinct_def map_removeAt distinct_removeAt)

lemma set_removeAt_distinct:
  assumes "distinct xs" "i < length xs"
  shows "xs ! i \<notin> set (removeAt i xs)"
proof -
  have "xs = take i xs @ xs ! i # drop (Suc i) xs"
    using assms(2) by (simp add: id_take_nth_drop)
  with assms(1) have "distinct (take i xs @ xs ! i # drop (Suc i) xs)"
    by simp
  then show ?thesis by (auto simp: removeAt_def)
qed

lemma cellsDistinct_replace:
  assumes "findIndex (atCell x y) ts = Some i" "cellsDistinct ts"
  shows "cellsDistinct (removeAt i ts @ [mkTile x y k])"
proof -
  let ?f = "\<lambda>t. (tx t, ty t)"
  from findIndex_SomeD[OF assms(1)] have i: "i < length ts" "atCell x y (ts ! i)"
    by simp_all
  from assms(2) have d: "distinct (map ?f ts)"
    by (simp add: cellsDistinct_def)
  from i have "map ?f ts ! i = (x, y)"
    by (simp add: atCell_def)
  with set_removeAt_distinct[OF d] i(1) have "(x, y) \<notin> set (removeAt i (map ?f ts))"
    by (metis length_map)
  with d show ?thesis
    by (simp add: cellsDistinct_def map_removeAt distinct_removeAt)
qed

lemma oneTilePerCell_setTiles:
  assumes "oneTilePerCell r" "cellsDistinct ts"
  shows "oneTilePerCell (setTiles li ts r)"
proof -
  have "set ((layers r)[li := (layers r ! li)\<lparr>tiles := ts\<rparr>])
          \<subseteq> insert ((layers r ! li)\<lparr>tiles := ts\<rparr>) (set (layers r))"
    by (rule set_update_subset_insert)
  with assms show ?thesis
    by (auto simp: oneTilePerCell_def setTiles_def list_all_iff)
qed

lemma oneTilePerCell_layer:
  "oneTilePerCell r \<Longrightarrow> li < length (layers r) \<Longrightarrow> cellsDistinct (tiles (layers r ! li))"
  by (simp add: oneTilePerCell_def list_all_length)

lemma brushStep_cellsDistinct:
  "cellsDistinct (fst acc) \<Longrightarrow> cellsDistinct (fst (brushStep r n x y bt acc))"
  by (auto simp: brushStep_def Let_def cellsDistinct_replace cellsDistinct_append
      split: option.splits)

lemma fold_brushStep_cellsDistinct:
  "cellsDistinct (fst acc) \<Longrightarrow> cellsDistinct (fst (fold (brushStep r n x y) bts acc))"
  by (induction bts arbitrary: acc) (simp_all add: brushStep_cellsDistinct)

lemma addTile_oneTilePerCell:
  assumes "oneTilePerCell (room s)"
  shows "oneTilePerCell (room (addTile n x y k s))"
proof (cases "findIndex (\<lambda>l. lname l = n) (layers (room s))")
  case None
  with assms show ?thesis by (simp add: addTile_def)
next
  case (Some li)
  from findIndex_SomeD[OF Some] have li: "li < length (layers (room s))"
    by simp
  from oneTilePerCell_layer[OF assms li]
  have d: "cellsDistinct (tiles (layers (room s) ! li))" .
  have "cellsDistinct
          (case findIndex (atCell x y) (tiles (layers (room s) ! li)) of
             Some e \<Rightarrow> (tiles (layers (room s) ! li))[e := mkTile x y k]
           | None \<Rightarrow> tiles (layers (room s) ! li) @ [mkTile x y k])"
    using d by (auto split: option.splits intro: cellsDistinct_update cellsDistinct_append)
  from oneTilePerCell_setTiles[OF assms this] Some assms show ?thesis
    by (simp add: addTile_def Let_def)
qed

lemma removeTile_oneTilePerCell:
  assumes "oneTilePerCell (room s)"
  shows "oneTilePerCell (room (removeTile n x y s))"
proof (cases "findIndex (\<lambda>l. lname l = n) (layers (room s))")
  case None
  with assms show ?thesis by (simp add: removeTile_def)
next
  case (Some li)
  from findIndex_SomeD[OF Some] have li: "li < length (layers (room s))"
    by simp
  from oneTilePerCell_layer[OF assms li]
  have d: "cellsDistinct (tiles (layers (room s) ! li))" .
  from Some assms d show ?thesis
    by (auto simp: removeTile_def Let_def split: option.splits
        intro!: oneTilePerCell_setTiles cellsDistinct_filter cellsDistinct_removeAt)
qed

lemma applyTileBrush_oneTilePerCell:
  assumes "oneTilePerCell (room s)"
  shows "oneTilePerCell (room (applyTileBrush n x y s))"
proof (cases "findIndex (\<lambda>l. lname l = n) (layers (room s))")
  case None
  with assms show ?thesis by (simp add: applyTileBrush_def split: option.splits)
next
  case (Some li)
  from findIndex_SomeD[OF Some] have li: "li < length (layers (room s))"
    by simp
  from oneTilePerCell_layer[OF assms li]
  have d: "cellsDistinct (tiles (layers (room s) ! li))" .
  have "\<And>b. cellsDistinct (fst (fold (brushStep (room s) n x y) (btiles b)
                               (tiles (layers (room s) ! li), [])))"
    using d by (intro fold_brushStep_cellsDistinct) simp
  with Some assms show ?thesis
    by (auto simp: applyTileBrush_def Let_def split: option.splits
        intro!: oneTilePerCell_setTiles)
qed

lemma updateRoomSize_oneTilePerCell:
  assumes "oneTilePerCell (room s)"
  shows "oneTilePerCell (room (updateRoomSize w h s))"
  using assms
  by (auto simp: updateRoomSize_def Let_def oneTilePerCell_def list_all_iff
      intro!: cellsDistinct_filter)

lemma exec_oneTilePerCell:
  assumes "oneTilePerCell (room s)" "commandOk c"
  shows "oneTilePerCell (room (exec c s))"
proof (cases c)
  case (AddTile n x y k)
  with assms show ?thesis by (simp add: addTile_oneTilePerCell)
next
  case (RemoveTile n x y)
  with assms show ?thesis by (simp add: removeTile_oneTilePerCell)
next
  case (ApplyTileBrush n x y)
  with assms show ?thesis by (simp add: applyTileBrush_oneTilePerCell)
next
  case (UpdateRoomSize w h)
  with assms show ?thesis by (simp add: updateRoomSize_oneTilePerCell)
next
  case (AddLayer l)
  with assms show ?thesis
    by (simp add: addLayer_def Let_def oneTilePerCell_def commandOk_def)
next
  case (RemoveInstance k)
  with assms show ?thesis
    by (simp add: removeInstance_def oneTilePerCell_def)
next
  case (RemoveLayer n)
  with assms show ?thesis
    by (auto simp: removeLayer_def oneTilePerCell_def list_all_iff split: option.splits)
next
  case (AddInstance i)
  with assms show ?thesis
    by (simp add: addInstance_def oneTilePerCell_def)
next
  case (ToggleLayerVisibility n)
  with assms show ?thesis
    by (auto simp: toggleLayerVisibility_def Let_def oneTilePerCell_def list_all_iff)
next
  case (UpdateLayerType n t)
  with assms show ?thesis
    by (auto simp: updateLayerType_def oneTilePerCell_def list_all_iff)
next
  case (UpdateLayerTexture n t)
  with assms show ?thesis
    by (auto simp: updateLayerTexture_def oneTilePerCell_def list_all_iff)
next
  case (RenameLayer old new)
  with assms show ?thesis
    by (auto simp: handleSaveRename_def oneTilePerCell_def list_all_iff split: option.splits)
qed (use assms in \<open>simp_all add: setRoomName_def updateRoomType_def updateRoomBiome_def
      updateRoomChance_def oneTilePerCell_def\<close>)


lemma findIndex_map_cong:
  "map f xs = map f ys \<Longrightarrow> findIndex (\<lambda>x. P (f x)) xs = findIndex (\<lambda>x. P (f x)) ys"
proof (induction xs arbitrary: ys)
  case Nil
  then show ?case by simp
next
  case (Cons x xs)
  then obtain y ys' where ys: "ys = y # ys'" "f x = f y" "map f xs = map f ys'"
    by (cases ys) auto
  with Cons.IH[of ys'] show ?case by simp
qed

lemma lnames_setTiles:
  "map lname (layers (setTiles li ts r)) = map lname (layers r)"
proof (cases "li < length (layers r)")
  case True
  then show ?thesis
    by (simp add: setTiles_def map_update list_update_same_conv)
next
  case False
  then show ?thesis
    by (simp add: setTiles_def list_update_beyond)
qed

lemma findIndex_setTiles:
  "findIndex (\<lambda>l. lname l = n) (layers (setTiles li ts r))
     = findIndex (\<lambda>l. lname l = n) (layers r)"
  using findIndex_map_cong[OF lnames_setTiles, of "\<lambda>m. m = n"] by simp

lemma layer_setTiles:
  "li < length (layers r) \<Longrightarrow>
   layers (setTiles li ts r) ! li = (layers r ! li)\<lparr>tiles := ts\<rparr>"
  by (simp add: setTiles_def)

lemma filter_cell_single:
  "cellsDistinct ts \<Longrightarrow> t \<in> set ts \<Longrightarrow> atCell x y t \<Longrightarrow> filter (atCell x y) ts = [t]"
proof (induction ts)
  case Nil
  then show ?case by simp
next
  case (Cons a ts)
  show ?case
  proof (cases "a = t")
    case True
    from Cons.prems(1) have "(tx a, ty a) \<notin> (\<lambda>t. (tx t, ty t)) ` set ts"
      by (simp add: cellsDistinct_def)
    then have "\<forall>u\<in>set ts. (tx u, ty u) \<noteq> (tx a, ty a)"
      by (metis (mono_tags, lifting) image_eqI)
    with True Cons.prems(3) have "filter (atCell x y) ts = []"
      by (auto simp: filter_empty_conv atCell_def)
    with True Cons.prems(3) show ?thesis by simp
  next
    case False
    with Cons.prems have t: "t \<in> set ts" and d: "cellsDistinct ts"
      by (auto simp: cellsDistinct_def)
    from Cons.prems(1) t have "(tx a, ty a) \<noteq> (tx t, ty t)"
      by (auto simp: cellsDistinct_def)
    with Cons.prems(3) have "\<not> atCell x y a"
      by (auto simp: atCell_def)
    with Cons.IH[OF d t Cons.prems(3)] show ?thesis by simp
  qed
qed

lemma room_addTile:
  assumes "findIndex (\<lambda>l. lname l = n) (layers (room s)) = Some li"
    and "ltype (layers (room s) ! li) = TileT"
  shows "room (addTile n x y k s) =
     setTiles li
       (case findIndex (atCell x y) (tiles (layers (room s) ! li)) of
          Some e \<Rightarrow> (tiles (layers (room s) ! li))[e := mkTile x y k]
        | None \<Rightarrow> tiles (layers (room s) ! li) @ [mkTile x y k]) (room s)"
  using assms by (simp add: addTile_def Let_def)

lemma mkTile_in_upsert:
  "mkTile x y k \<in> set (case findIndex (atCell x y) ts of
          Some e \<Rightarrow> ts[e := mkTile x y k]
        | None \<Rightarrow> ts @ [mkTile x y k])"
  by (auto split: option.splits dest!: findIndex_SomeD intro: set_update_memI)

lemma addTile_twice:
  assumes inv: "oneTilePerCell (room s)"
    and f: "find (\<lambda>l. lname l = n) (layers (room s)) = Some l" and t: "ltype l = TileT"
  shows "\<exists>l'. find (\<lambda>l. lname l = n) (layers (room (addTile n x y j (addTile n x y i s)))) = Some l'
           \<and> filter (atCell x y) (tiles l') = [mkTile x y j]"
proof -
  from f obtain li where li: "findIndex (\<lambda>l. lname l = n) (layers (room s)) = Some li"
    and l: "l = layers (room s) ! li"
    by (auto simp: find_findIndex)
  from findIndex_SomeD[OF li] have len: "li < length (layers (room s))"
    by simp
  let ?s1 = "addTile n x y i s"
  let ?s2 = "addTile n x y j ?s1"
  from t l have ty: "ltype (layers (room s) ! li) = TileT"
    by simp
  note r1 = room_addTile[OF li ty, of x y i]
  have li1: "findIndex (\<lambda>l. lname l = n) (layers (room ?s1)) = Some li"
    by (simp add: r1 findIndex_setTiles li)
  have len1: "li < length (layers (room ?s1))"
    using findIndex_SomeD[OF li1] by simp
  have ty1: "ltype (layers (room ?s1) ! li) = TileT"
    using ty len by (simp add: r1 layer_setTiles)
  note r2 = room_addTile[OF li1 ty1, of x y j]
  have li2: "findIndex (\<lambda>l. lname l = n) (layers (room ?s2)) = Some li"
    by (simp add: r2 findIndex_setTiles li1)
  have inv2: "oneTilePerCell (room ?s2)"
    by (intro addTile_oneTilePerCell inv)
  have len2: "li < length (layers (room ?s2))"
    using findIndex_SomeD[OF li2] by simp
  have d2: "cellsDistinct (tiles (layers (room ?s2) ! li))"
    by (rule oneTilePerCell_layer[OF inv2 len2])
  have "mkTile x y j \<in> set (tiles (layers (room ?s2) ! li))"
    unfolding r2 using len1 by (simp add: layer_setTiles mkTile_in_upsert)
  from filter_cell_single[OF d2 this] have "filter (atCell x y) (tiles (layers (room ?s2) ! li)) = [mkTile x y j]"
    by simp
  moreover have "find (\<lambda>l. lname l = n) (layers (room ?s2)) = Some (layers (room ?s2) ! li)"
    by (simp add: find_findIndex li2)
  ultimately show ?thesis by blast
qed

lemma filter_removeAt_other:
  "i < length xs \<Longrightarrow> \<not> P (xs ! i) \<Longrightarrow> filter P (removeAt i xs) = filter P xs"
proof -
  assume i: "i < length xs" and n: "\<not> P (xs ! i)"
  have "filter P xs = filter P (take i xs @ xs ! i # drop (Suc i) xs)"
    using i by (simp add: id_take_nth_drop[symmetric])
  also have "\<dots> = filter P (removeAt i xs)"
    using n by (simp add: removeAt_def)
  finally show ?thesis by simp
qed

lemma filter_removeAt_cell:
  assumes "findIndex (atCell x y) ts = Some i" "cellsDistinct ts"
  shows "filter (atCell x y) (removeAt i ts) = []"
proof -
  have d: "cellsDistinct (removeAt i ts @ [mkTile x y 0])"
    by (rule cellsDistinct_replace[OF assms])
  have "\<forall>t\<in>set (removeAt i ts). \<not> atCell x y t"
  proof
    fix t assume t: "t \<in> set (removeAt i ts)"
    from d have "(x, y) \<notin> (\<lambda>t. (tx t, ty t)) ` set (removeAt i ts)"
      by (simp add: cellsDistinct_def)
    with t show "\<not> atCell x y t"
      by (auto simp: atCell_def image_iff)
  qed
  then show ?thesis by (simp add: filter_empty_conv)
qed

lemma find_snoc:
  "find P (xs @ [x]) = (case find P xs of Some z \<Rightarrow> Some z | None \<Rightarrow> if P x then Some x else None)"
  by (induction xs) simp_all

lemma atCell_other: "(cx, cy) \<noteq> (x, y) \<Longrightarrow> atCell x y t \<Longrightarrow> \<not> atCell cx cy t"
  by (auto simp: atCell_def)

lemma brushStep_cell:
  assumes "cellsDistinct (fst acc)"
  shows "filter (atCell cx cy) (fst (brushStep r n x y bt acc)) =
     (if brushCell x y bt = (cx, cy) \<and> cellInRoom r (cx, cy)
      then [mkTile cx cy (brindex bt)]
      else filter (atCell cx cy) (fst acc))"
proof (cases "cellInRoom r (brushCell x y bt)")
  case False
  then have "brushStep r n x y bt acc = acc"
    by (auto simp: brushStep_def brushCell_def cellInRoom_def Let_def)
  with False show ?thesis by auto
next
  case True
  let ?c = "brushCell x y bt"
  let ?X = "x + jsRound (brx bt * 16)" and ?Y = "y + jsRound (bry bt * 16)"
  have c: "?c = (?X, ?Y)"
    by (simp add: brushCell_def)
  from True have inb: "\<not> (?X < 0 \<or> ?Y < 0 \<or> ?X \<ge> width r \<or> ?Y \<ge> height r)"
    by (auto simp: cellInRoom_def brushCell_def)
  show ?thesis
  proof (cases "findIndex (atCell ?X ?Y) (fst acc)")
    case None
    with inb have st: "fst (brushStep r n x y bt acc) = fst acc @ [mkTile ?X ?Y (brindex bt)]"
      by (simp add: brushStep_def Let_def)
    from None have no: "filter (atCell ?X ?Y) (fst acc) = []"
      by (simp add: findIndex_None_iff filter_empty_conv)
    show ?thesis
    proof (cases "?c = (cx, cy)")
      case same: True
      with c have "cx = ?X" "cy = ?Y" by simp_all
      with st no True same show ?thesis by simp
    next
      case other: False
      with c have "\<not> atCell cx cy (mkTile ?X ?Y (brindex bt))"
        by (auto simp: atCell_def)
      with st other show ?thesis by simp
    qed
  next
    case (Some i)
    with inb have st: "fst (brushStep r n x y bt acc) =
        removeAt i (fst acc) @ [mkTile ?X ?Y (brindex bt)]"
      by (simp add: brushStep_def Let_def)
    from findIndex_SomeD[OF Some] have i: "i < length (fst acc)" "atCell ?X ?Y (fst acc ! i)"
      by simp_all
    show ?thesis
    proof (cases "?c = (cx, cy)")
      case same: True
      with c have e: "cx = ?X" "cy = ?Y" by simp_all
      from filter_removeAt_cell[OF Some assms] st True same e show ?thesis by simp
    next
      case other: False
      with c have ne: "(cx, cy) \<noteq> (?X, ?Y)" by auto
      then have a: "\<not> atCell cx cy (mkTile ?X ?Y (brindex bt))"
        by (auto simp: atCell_def)
      from atCell_other[OF ne i(2)] have na: "\<not> atCell cx cy (fst acc ! i)" .
      have "filter (atCell cx cy) (removeAt i (fst acc)) = filter (atCell cx cy) (fst acc)"
        using i(1) na by (rule filter_removeAt_other)
      with st a other show ?thesis by simp
    qed
  qed
qed

lemma fold_brushStep_cell:
  assumes "cellsDistinct (fst acc)"
  shows "filter (atCell cx cy) (fst (fold (brushStep r n x y) bts acc)) =
     (case placedIndex r x y bts (cx, cy) of
        None \<Rightarrow> filter (atCell cx cy) (fst acc)
      | Some k \<Rightarrow> [mkTile cx cy k])"
  using assms
proof (induction bts arbitrary: acc)
  case Nil
  then show ?case by (simp add: placedIndex_def)
next
  case (Cons bt bts)
  let ?P = "\<lambda>b. brushCell x y b = (cx, cy) \<and> cellInRoom r (cx, cy)"
  have d: "cellsDistinct (fst (brushStep r n x y bt acc))"
    by (rule brushStep_cellsDistinct[OF Cons.prems])
  note ih = Cons.IH[OF d]
  note st = brushStep_cell[OF Cons.prems, of cx cy r n x y bt]
  show ?case
  proof (cases "find ?P (rev bts)")
    case None
    then have p: "placedIndex r x y bts (cx, cy) = None"
      by (simp add: placedIndex_def)
    from None have "placedIndex r x y (bt # bts) (cx, cy) = (if ?P bt then Some (brindex bt) else None)"
      by (simp add: placedIndex_def find_snoc)
    with ih p st show ?thesis by simp
  next
    case (Some b)
    then have p: "placedIndex r x y bts (cx, cy) = Some (brindex b)"
      by (simp add: placedIndex_def)
    from Some have "placedIndex r x y (bt # bts) (cx, cy) = Some (brindex b)"
      by (simp add: placedIndex_def find_snoc)
    with ih p show ?thesis by simp
  qed
qed


lemma room_applyTileBrush:
  assumes "tileBrush s = Some b"
    and "findIndex (\<lambda>l. lname l = n) (layers (room s)) = Some li"
    and "ltype (layers (room s) ! li) = TileT"
  shows "room (applyTileBrush n x y s) =
     setTiles li
       (fst (fold (brushStep (room s) n x y) (btiles b) (tiles (layers (room s) ! li), [])))
       (room s)"
  using assms by (simp add: applyTileBrush_def Let_def)

lemma applyTileBrush_cells:
  assumes inv: "oneTilePerCell (room s)" and b: "tileBrush s = Some b"
    and f: "find (\<lambda>l. lname l = n) (layers (room s)) = Some l" and t: "ltype l = TileT"
  shows "\<exists>l'. find (\<lambda>l. lname l = n) (layers (room (applyTileBrush n x y s))) = Some l'
           \<and> (\<forall>cx cy. filter (atCell cx cy) (tiles l') =
                 (case placedIndex (room s) x y (btiles b) (cx, cy) of
                    None \<Rightarrow> filter (atCell cx cy) (tiles l)
                  | Some k \<Rightarrow> [mkTile cx cy k]))"
proof -
  from f obtain li where li: "findIndex (\<lambda>l. lname l = n) (layers (room s)) = Some li"
    and l: "l = layers (room s) ! li"
    by (auto simp: find_findIndex)
  from findIndex_SomeD[OF li] have len: "li < length (layers (room s))"
    by simp
  from t l have ty: "ltype (layers (room s) ! li) = TileT"
    by simp
  let ?ts = "fst (fold (brushStep (room s) n x y) (btiles b) (tiles l, []))"
  have r: "room (applyTileBrush n x y s) = setTiles li ?ts (room s)"
    unfolding l by (rule room_applyTileBrush[OF b li ty])
  have d: "cellsDistinct (fst (tiles l, []::BatchedTile list))"
    using oneTilePerCell_layer[OF inv len] l by simp
  have cells: "filter (atCell cx cy) ?ts =
                 (case placedIndex (room s) x y (btiles b) (cx, cy) of
                    None \<Rightarrow> filter (atCell cx cy) (tiles l)
                  | Some k \<Rightarrow> [mkTile cx cy k])" for cx cy
    using fold_brushStep_cell[OF d, of cx cy "room s" n x y "btiles b"]
    by (simp cong: option.case_cong)
  have "find (\<lambda>l. lname l = n) (layers (room (applyTileBrush n x y s)))
          = Some (layers (setTiles li ?ts (room s)) ! li)"
    by (simp add: r find_findIndex findIndex_setTiles li)
  moreover have "tiles (layers (setTiles li ?ts (room s)) ! li) = ?ts"
    using len by (simp add: layer_setTiles)
  ultimately show ?thesis using cells by simp
qed

lemma filter_update_other:
  assumes "i < length xs" "\<not> P (xs ! i)" "\<not> P v"
  shows "filter P (xs[i := v]) = filter P xs"
proof -
  have "filter P xs = filter P (take i xs @ xs ! i # drop (Suc i) xs)"
    using assms(1) by (simp add: id_take_nth_drop[symmetric])
  moreover have "xs[i := v] = take i xs @ v # drop (Suc i) xs"
    using assms(1) by (rule upd_conv_take_nth_drop)
  ultimately show ?thesis using assms(2,3) by simp
qed

lemma upsert_cell:
  assumes "cellsDistinct ts"
  shows "filter (atCell cx cy)
           (case findIndex (atCell x y) ts of
              Some e \<Rightarrow> ts[e := mkTile x y k]
            | None \<Rightarrow> ts @ [mkTile x y k])
         = (if (cx, cy) = (x, y) then [mkTile x y k] else filter (atCell cx cy) ts)"
proof (cases "(cx, cy) = (x, y)")
  case True
  let ?u = "case findIndex (atCell x y) ts of
              Some e \<Rightarrow> ts[e := mkTile x y k]
            | None \<Rightarrow> ts @ [mkTile x y k]"
  have d: "cellsDistinct ?u"
    using assms by (auto split: option.splits intro: cellsDistinct_update cellsDistinct_append)
  have m: "mkTile x y k \<in> set ?u"
    by (rule mkTile_in_upsert)
  from filter_cell_single[OF d m] True show ?thesis by simp
next
  case False
  then have nv: "\<not> atCell cx cy (mkTile x y k)"
    by (auto simp: atCell_def)
  show ?thesis
  proof (cases "findIndex (atCell x y) ts")
    case None
    with False nv show ?thesis by auto
  next
    case (Some e)
    from findIndex_SomeD[OF Some] have e: "e < length ts" "atCell x y (ts ! e)"
      by simp_all
    from atCell_other[OF False e(2)] have "\<not> atCell cx cy (ts ! e)" .
    with e(1) nv have "filter (atCell cx cy) (ts[e := mkTile x y k]) = filter (atCell cx cy) ts"
      by (intro filter_update_other)
    with Some False show ?thesis by auto
  qed
qed

lemma addTile_cells:
  assumes inv: "oneTilePerCell (room s)"
    and f: "find (\<lambda>l. lname l = n) (layers (room s)) = Some l" and t: "ltype l = TileT"
  shows "\<exists>l'. find (\<lambda>l. lname l = n) (layers (room (addTile n x y i s))) = Some l'
           \<and> (\<forall>cx cy. filter (atCell cx cy) (tiles l') =
                 (if (cx, cy) = (x, y) then [mkTile x y i]
                  else filter (atCell cx cy) (tiles l)))"
proof -
  from f obtain li where li: "findIndex (\<lambda>l. lname l = n) (layers (room s)) = Some li"
    and l: "l = layers (room s) ! li"
    by (auto simp: find_findIndex)
  from findIndex_SomeD[OF li] have len: "li < length (layers (room s))"
    by simp
  from t l have ty: "ltype (layers (room s) ! li) = TileT"
    by simp
  let ?ts = "case findIndex (atCell x y) (tiles l) of
               Some e \<Rightarrow> (tiles l)[e := mkTile x y i]
             | None \<Rightarrow> tiles l @ [mkTile x y i]"
  have r: "room (addTile n x y i s) = setTiles li ?ts (room s)"
    unfolding l by (rule room_addTile[OF li ty])
  have d: "cellsDistinct (tiles l)"
    using oneTilePerCell_layer[OF inv len] l by simp
  have "find (\<lambda>l. lname l = n) (layers (room (addTile n x y i s)))
          = Some (layers (setTiles li ?ts (room s)) ! li)"
    by (simp add: r find_findIndex findIndex_setTiles li)
  moreover have "tiles (layers (setTiles li ?ts (room s)) ! li) = ?ts"
    using len by (simp add: layer_setTiles)
  ultimately show ?thesis using upsert_cell[OF d] by simp
qed

text \<open>
  Claim C7, as amended: when every layer of the room holds at most one tile per cell, so
  does every layer of the room after any mutation command, provided that a layer handed
  to \<^verbatim>\<open>addLayer\<close> holds at most one tile per cell itself (\<^verbatim>\<open>addLayer\<close> appends
  its layer unchecked). Placing replaces the occupant: when the layer name finds a layer
  of type \<^verbatim>\<open>'tile'\<close>, then after \<^verbatim>\<open>addTile\<close> the layer holds at the cell exactly
  the new tile and at every other cell what it held before; after \<^verbatim>\<open>addTile\<close> at a
  cell followed by \<^verbatim>\<open>addTile\<close> at the same cell it holds there exactly one tile, with
  the later index; and after \<^verbatim>\<open>applyTileBrush\<close> with a brush set it holds, at
  every cell inside the room on which a brush tile lands, exactly one tile, with the
  index of the last brush tile landing there, and at every other cell what it held
  before.
\<close>

theorem one_tile_per_cell:
  assumes "oneTilePerCell (room s)"
  shows "(commandOk c \<longrightarrow> oneTilePerCell (room (exec c s)))
     \<and> (\<forall>l. find (\<lambda>l. lname l = n) (layers (room s)) = Some l \<and> ltype l = TileT \<longrightarrow>
          (\<exists>l'. find (\<lambda>l. lname l = n) (layers (room (addTile n x y i s))) = Some l'
                \<and> (\<forall>cx cy. filter (atCell cx cy) (tiles l') =
                      (if (cx, cy) = (x, y) then [mkTile x y i]
                       else filter (atCell cx cy) (tiles l))))
          \<and> (\<exists>l'. find (\<lambda>l. lname l = n)
                   (layers (room (addTile n x y j (addTile n x y i s)))) = Some l'
                \<and> filter (atCell x y) (tiles l') = [mkTile x y j])
          \<and> (\<forall>b. tileBrush s = Some b \<longrightarrow>
                (\<exists>l'. find (\<lambda>l. lname l = n) (layers (room (applyTileBrush n x y s)))
                         = Some l'
                      \<and> (\<forall>cx cy. filter (atCell cx cy) (tiles l') =
                            (case placedIndex (room s) x y (btiles b) (cx, cy) of
                               None \<Rightarrow> filter (atCell cx cy) (tiles l)
                             | Some k \<Rightarrow> [mkTile cx cy k])))))"
  using exec_oneTilePerCell[OF assms] addTile_cells[OF assms] addTile_twice[OF assms]
    applyTileBrush_cells[OF assms]
  by blast

theorem one_tile_per_cell_witness:
  "oneTilePerCell (room squareBrushState) \<and> commandOk (AddTile ''TilesForest'' 16 0 9)
   \<and> oneTilePerCell (room (exec (AddTile ''TilesForest'' 16 0 9) squareBrushState))
   \<and> find (\<lambda>l. lname l = ''TilesForest'') (layers (room squareBrushState))
       = Some (layers (room squareBrushState) ! 0)
   \<and> ltype (layers (room squareBrushState) ! 0) = TileT
   \<and> tileBrush squareBrushState = Some squareBrush
   \<and> filter (atCell 16 0)
        (tiles (layers (room (addTile ''TilesForest'' 16 0 5 squareBrushState)) ! 0))
       = [mkTile 16 0 5]
   \<and> filter (atCell 32 0)
        (tiles (layers (room (addTile ''TilesForest'' 32 0 6
                                (addTile ''TilesForest'' 32 0 5 squareBrushState))) ! 0))
       = [mkTile 32 0 6]
   \<and> map tindex (filter (atCell 16 0) (tiles (layers (room squareBrushState) ! 0))) = [2]
   \<and> filter (atCell 16 0)
        (tiles (layers (room (applyTileBrush ''TilesForest'' 16 0 squareBrushState)) ! 0))
       = [mkTile 16 0 1]"
proof -
  let ?s = squareBrushState
  let ?f = "\<lambda>r. find (\<lambda>l. lname l = ''TilesForest'') (layers r)"
  have a: "oneTilePerCell (room ?s)"
    by code_simp
  have b: "commandOk (AddTile ''TilesForest'' 16 0 9)"
    by (simp add: commandOk_def)
  have f: "?f (room ?s) = Some (layers (room ?s) ! 0)"
    by code_simp
  have t: "ltype (layers (room ?s) ! 0) = TileT"
    by code_simp
  have br: "tileBrush ?s = Some squareBrush"
    by code_simp
  have old: "map tindex (filter (atCell 16 0) (tiles (layers (room ?s) ! 0))) = [2]"
    by code_simp
  have g1: "?f (room (addTile ''TilesForest'' 16 0 5 ?s))
           = Some (layers (room (addTile ''TilesForest'' 16 0 5 ?s)) ! 0)"
    by code_simp
  have g2: "?f (room (addTile ''TilesForest'' 32 0 6 (addTile ''TilesForest'' 32 0 5 ?s)))
           = Some (layers (room (addTile ''TilesForest'' 32 0 6
                                   (addTile ''TilesForest'' 32 0 5 ?s))) ! 0)"
    by code_simp
  have g3: "?f (room (applyTileBrush ''TilesForest'' 16 0 ?s))
           = Some (layers (room (applyTileBrush ''TilesForest'' 16 0 ?s)) ! 0)"
    by code_simp
  have pi: "placedIndex (room ?s) 16 0 (btiles squareBrush) (16, 0) = Some 1"
    by code_simp
  note th1 = one_tile_per_cell[OF a, of "AddTile ''TilesForest'' 16 0 9" "''TilesForest''"
                                 16 0 5 5]
  note th2 = one_tile_per_cell[OF a, of "AddTile ''TilesForest'' 16 0 9" "''TilesForest''"
                                 32 0 5 6]
  from th1 b have p: "oneTilePerCell (room (exec (AddTile ''TilesForest'' 16 0 9) ?s))"
    by blast
  from th1 f t obtain l1 where
    "?f (room (addTile ''TilesForest'' 16 0 5 ?s)) = Some l1"
    "\<forall>cx cy. filter (atCell cx cy) (tiles l1) =
        (if (cx, cy) = (16, 0) then [mkTile 16 0 5]
         else filter (atCell cx cy) (tiles (layers (room ?s) ! 0)))"
    by blast
  with g1 have r1: "filter (atCell 16 0)
        (tiles (layers (room (addTile ''TilesForest'' 16 0 5 ?s)) ! 0)) = [mkTile 16 0 5]"
    by simp
  from th2 f t obtain l2 where
    "?f (room (addTile ''TilesForest'' 32 0 6 (addTile ''TilesForest'' 32 0 5 ?s))) = Some l2"
    "filter (atCell 32 0) (tiles l2) = [mkTile 32 0 6]"
    by blast
  with g2 have r2: "filter (atCell 32 0)
        (tiles (layers (room (addTile ''TilesForest'' 32 0 6
                                (addTile ''TilesForest'' 32 0 5 ?s))) ! 0))
       = [mkTile 32 0 6]"
    by simp
  from th1 f t br obtain l3 where
    "?f (room (applyTileBrush ''TilesForest'' 16 0 ?s)) = Some l3"
    "\<forall>cx cy. filter (atCell cx cy) (tiles l3) =
        (case placedIndex (room ?s) 16 0 (btiles squareBrush) (cx, cy) of
           None \<Rightarrow> filter (atCell cx cy) (tiles (layers (room ?s) ! 0))
         | Some k \<Rightarrow> [mkTile cx cy k])"
    by blast
  with g3 pi have r3: "filter (atCell 16 0)
        (tiles (layers (room (applyTileBrush ''TilesForest'' 16 0 ?s)) ! 0))
       = [mkTile 16 0 1]"
    by simp
  from a b p f t br r1 r2 old r3 show ?thesis by simp
qed

text \<open>
  The claim as stated fails for \<^verbatim>\<open>addLayer\<close>: the default room holds at most one
  tile per cell, and after a layer with two tiles in one cell has been added it does
  not.
\<close>

theorem add_layer_with_doubled_cell_breaks_invariant:
  "oneTilePerCell (room initialState)
   \<and> \<not> oneTilePerCell (room (exec (AddLayer doubledLayer) initialState))"
  by code_simp

section \<open>Adding an instance\<close>

text \<open>
  Claim C8: when no layer of the room has the name given by the instance's
  \<^verbatim>\<open>instance_layer_name\<close> and the type \<^verbatim>\<open>'object'\<close>, \<^verbatim>\<open>addInstance\<close> returns
  the state as it was: the room is unchanged and no history entry is recorded.
\<close>

theorem add_instance_silent_noop:
  "\<not> list_ex (\<lambda>l. LName (lname l) = instance_layer_name inst \<and> ltype l = ObjectT)
        (layers (room s))
   \<Longrightarrow> addInstance inst s = s"
  unfolding addInstance_def canPlaceObjectOnLayer_def list_ex_iff
  by (auto split: option.splits dest: find_SomeD)

theorem add_instance_silent_noop_witness:
  "\<not> list_ex (\<lambda>l. LName (lname l) =
                    instance_layer_name
                      \<lparr>instance_layer_name = LName ''TilesForest'', obj_name = ''oTree'',
                       ix = 16, iy = 32\<rparr>
                  \<and> ltype l = ObjectT)
        (layers (room initialState))
   \<and> addInstance \<lparr>instance_layer_name = LName ''TilesForest'', obj_name = ''oTree'',
                   ix = 16, iy = 32\<rparr> initialState = initialState"
proof -
  have h: "\<not> list_ex (\<lambda>l. LName (lname l) =
                    instance_layer_name
                      \<lparr>instance_layer_name = LName ''TilesForest'', obj_name = ''oTree'',
                       ix = 16, iy = 32\<rparr>
                  \<and> ltype l = ObjectT)
        (layers (room initialState))"
    by (simp add: initialState_def defaultRoom_def createNewRoom_def defaultLayers_def)
  from h add_instance_silent_noop[OF h] show ?thesis by simp
qed

section \<open>Importing a brush library\<close>

text \<open>
  Claim C9: the check that \<^verbatim>\<open>importBrushLibrary\<close> applies to each entry of the parsed
  array is the check of the specification (string id and name, array of tiles, numeric
  width and height, string texture); for an array the import keeps exactly the entries
  that pass, in their order, and returns \<^verbatim>\<open>true\<close> when there is at least one, and
  otherwise returns \<^verbatim>\<open>false\<close> and leaves the state as it was; for a parsed value
  that is not an array, and when parsing fails, it returns \<^verbatim>\<open>false\<close> and leaves the
  state as it was.
\<close>

theorem import_brush_library_validates:
  "(validBrush e \<longleftrightarrow> wellFormedEntry e)
   \<and> importBrushLibrary (Some (JArr es)) s =
       (if filter wellFormedEntry es = [] then (False, s)
        else (True, s\<lparr>savedBrushes := filter wellFormedEntry es\<rparr>))
   \<and> (\<not> isJArr p \<longrightarrow> importBrushLibrary (Some p) s = (False, s))
   \<and> importBrushLibrary None s = (False, s)"
proof -
  have eq: "filter validBrush es = filter wellFormedEntry es"
    by (rule filter_cong) (simp_all add: validBrush_wellFormed)
  have a: "importBrushLibrary (Some (JArr es)) s =
       (if filter wellFormedEntry es = [] then (False, s)
        else (True, s\<lparr>savedBrushes := filter wellFormedEntry es\<rparr>))"
    unfolding importBrushLibrary_def eq[symmetric] by (simp add: Let_def)
  have b: "\<not> isJArr p \<longrightarrow> importBrushLibrary (Some p) s = (False, s)"
    by (cases p) (simp_all add: importBrushLibrary_def isJArr_def)
  have c: "importBrushLibrary None s = (False, s)"
    by (simp add: importBrushLibrary_def)
  from validBrush_wellFormed a b c show ?thesis by blast
qed

theorem import_brush_library_validates_witness:
  "\<not> isJArr (JObj [])
   \<and> importBrushLibrary (Some (JObj [])) initialState = (False, initialState)
   \<and> importBrushLibrary (Some (JArr [importedBrush, JNum 3, exampleBrush])) initialState
       = (True, initialState\<lparr>savedBrushes := [importedBrush, exampleBrush]\<rparr>)"
proof -
  have h: "\<not> isJArr (JObj [])"
    by (simp add: isJArr_def)
  have f: "filter wellFormedEntry [importedBrush, JNum 3, exampleBrush]
             = [importedBrush, exampleBrush]"
    by (simp add: wellFormedEntry_def hasField_def importedBrush_def exampleBrush_def
        isJStr_def isJNum_def isJArr_def)
  from import_brush_library_validates
         [of importedBrush "[importedBrush, JNum 3, exampleBrush]" initialState "JObj []"]
       h f
  show ?thesis by simp
qed

text \<open>
  Claim C10: when \<^verbatim>\<open>importBrushLibrary\<close> returns \<^verbatim>\<open>true\<close>, its input was an array
  and the library is the list of the array's valid entries; a brush of the previous
  library that is not an entry of the array is no longer in the library.
\<close>

theorem import_replaces_library:
  assumes "importBrushLibrary p s = (True, s')"
  shows "\<exists>es. p = Some (JArr es) \<and> savedBrushes s' = filter validBrush es
           \<and> (\<forall>b\<in>set (savedBrushes s). b \<notin> set es \<longrightarrow> b \<notin> set (savedBrushes s'))"
proof -
  from assms obtain es where p: "p = Some (JArr es)"
    by (auto simp: importBrushLibrary_def split: option.splits json.splits)
  from assms p have "savedBrushes s' = filter validBrush es"
    by (auto simp: importBrushLibrary_def Let_def split: if_splits)
  with p show ?thesis by auto
qed

theorem import_replaces_library_witness:
  "importBrushLibrary (Some (JArr [importedBrush, JNull])) initialState
     = (True, initialState\<lparr>savedBrushes := [importedBrush]\<rparr>)
   \<and> exampleBrush \<in> set (savedBrushes initialState)
   \<and> exampleBrush \<notin> set [importedBrush, JNull]
   \<and> exampleBrush \<notin> set (savedBrushes (initialState\<lparr>savedBrushes := [importedBrush]\<rparr>))"
proof -
  have h: "importBrushLibrary (Some (JArr [importedBrush, JNull])) initialState
             = (True, initialState\<lparr>savedBrushes := [importedBrush]\<rparr>)"
    by (simp add: importBrushLibrary_def validBrush_def truthy_def getProp_def
        typeofString_def typeofNumber_def isArray_def importedBrush_def)
  have old: "exampleBrush \<in> set (savedBrushes initialState)"
    by (simp add: initialState_def)
  have new: "exampleBrush \<notin> set [importedBrush, JNull]"
    by (simp add: exampleBrush_def importedBrush_def)
  from import_replaces_library[OF h] old new h show ?thesis by auto
qed

end
